theory Spec2Isabelle
  imports Complex_Main "HOL-Library.Word"
begin

section \<open>Basic types of RbaEngine.h\<close>

text \<open>
  \<^verbatim>\<open>size_t\<close> is modelled as a 64-bit unsigned word. The identifier types
  \<^verbatim>\<open>TKeyFrameID\<close>, \<^verbatim>\<open>TLandmarkID\<close> and \<^verbatim>\<open>topo_dist_t\<close> are typedefs of
  \<^verbatim>\<open>srba_types.h\<close>; RbaEngine.h casts \<^verbatim>\<open>-1\<close> to \<^verbatim>\<open>TKeyFrameID\<close> to obtain
  "infinity", so they are unsigned machine integers, taken here as 64-bit words.
  \<^verbatim>\<open>double\<close> is modelled by \<^typ>\<open>real\<close>.
\<close>

type_synonym size_t = "64 word"
type_synonym TKeyFrameID = "64 word"
type_synonym TLandmarkID = "64 word"
type_synonym topo_dist_t = "64 word"

section \<open>TOptimizeExtraOutputInfo\<close>

text \<open>
  The struct of RbaEngine.h, lines 124-176, field by field. The member
  \<^verbatim>\<open>extra_results\<close> has the type \<^verbatim>\<open>RBA_OPTIONS::solver_t::extra_results_t\<close>,
  a template argument: it is the type parameter \<open>'x\<close>, and its \<^verbatim>\<open>clear()\<close>
  method is the parameter \<open>extra_clear\<close> of the functions below.
\<close>

record 'x TOptimizeExtraOutputInfo =
  num_observations :: size_t
  num_jacobians :: size_t
  num_kf2kf_edges_optimized :: size_t
  num_kf2lm_edges_optimized :: size_t
  num_total_scalar_optimized :: size_t
  num_kf_optimized :: size_t
  num_lm_optimized :: size_t
  num_span_tree_numeric_updates :: size_t
  obs_rmse :: real
  total_sqr_error_init :: real
  total_sqr_error_final :: real
  HAp_condition_number :: real
  sparsity_dh_dAp_nnz :: size_t
  sparsity_dh_dAp_max_size :: size_t
  sparsity_dh_df_nnz :: size_t
  sparsity_dh_df_max_size :: size_t
  sparsity_HAp_nnz :: size_t
  sparsity_HAp_max_size :: size_t
  sparsity_Hf_nnz :: size_t
  sparsity_Hf_max_size :: size_t
  sparsity_HApf_nnz :: size_t
  sparsity_HApf_max_size :: size_t
  optimized_k2k_edge_indices :: "size_t list"
  optimized_landmark_indices :: "size_t list"
  extra_results :: 'x

text \<open>\<^verbatim>\<open>TOptimizeExtraOutputInfo::clear()\<close>: one update per assignment of the body.\<close>

definition TOptimizeExtraOutputInfo_clear ::
  "('x \<Rightarrow> 'x) \<Rightarrow> 'x TOptimizeExtraOutputInfo \<Rightarrow> 'x TOptimizeExtraOutputInfo" where
  "TOptimizeExtraOutputInfo_clear extra_clear s =
     s\<lparr> num_observations := 0,
        num_jacobians := 0,
        num_kf2kf_edges_optimized := 0,
        num_kf2lm_edges_optimized := 0,
        num_total_scalar_optimized := 0,
        num_kf_optimized := 0,
        num_lm_optimized := 0,
        num_span_tree_numeric_updates := 0,
        total_sqr_error_init := 0,
        total_sqr_error_final := 0,
        HAp_condition_number := 0,
        sparsity_HApf_max_size := 0,
        sparsity_HApf_nnz := 0,
        sparsity_Hf_max_size := 0,
        sparsity_Hf_nnz := 0,
        sparsity_HAp_max_size := 0,
        sparsity_HAp_nnz := 0,
        sparsity_dh_df_max_size := 0,
        sparsity_dh_df_nnz := 0,
        sparsity_dh_dAp_max_size := 0,
        sparsity_dh_dAp_nnz := 0,
        optimized_k2k_edge_indices := [],
        optimized_landmark_indices := [],
        extra_results := extra_clear (extra_results s) \<rparr>"

text \<open>
  The constructor \<^verbatim>\<open>TOptimizeExtraOutputInfo() { clear(); }\<close>. Its argument is the
  content of the object before the body runs: the scalar members have no
  initialiser, so they hold whatever the storage held.
\<close>

definition TOptimizeExtraOutputInfo_ctor ::
  "('x \<Rightarrow> 'x) \<Rightarrow> 'x TOptimizeExtraOutputInfo \<Rightarrow> 'x TOptimizeExtraOutputInfo" where
  "TOptimizeExtraOutputInfo_ctor extra_clear raw = TOptimizeExtraOutputInfo_clear extra_clear raw"

section \<open>TNewKeyFrameInfo\<close>

text \<open>
  The struct of RbaEngine.h, lines 179-194. \<^verbatim>\<open>TNewEdgeInfo\<close> is declared in
  \<^verbatim>\<open>srba_types.h\<close>; it is the type parameter \<open>'e\<close>. The type of \<^verbatim>\<open>kf_id\<close> is the
  parameter \<open>'k\<close>, which \<open>TNewKeyFrameInfo_clear\<close> takes at an unsigned word of
  any width.
\<close>

record ('k, 'e, 'x) TNewKeyFrameInfo =
  kf_id :: 'k
  created_edge_ids :: "'e list"
  optimize_results :: "'x TOptimizeExtraOutputInfo"
  optimize_results_stg1 :: "'x TOptimizeExtraOutputInfo"

text \<open>\<^verbatim>\<open>TNewKeyFrameInfo::clear()\<close>; \<^verbatim>\<open>static_cast<TKeyFrameID>(-1)\<close> is the word \<open>- 1\<close>.\<close>

definition TNewKeyFrameInfo_clear ::
  "('x \<Rightarrow> 'x) \<Rightarrow> ('w::len word, 'e, 'x) TNewKeyFrameInfo \<Rightarrow> ('w word, 'e, 'x) TNewKeyFrameInfo" where
  "TNewKeyFrameInfo_clear extra_clear i =
     i\<lparr> kf_id := - 1,
        created_edge_ids := [],
        optimize_results := TOptimizeExtraOutputInfo_clear extra_clear (optimize_results i) \<rparr>"

section \<open>The pseudo-Huber kernel\<close>

text \<open>\<^verbatim>\<open>mrpt::utils::square\<close> is MRPT's inline template returning \<^verbatim>\<open>x*x\<close>.\<close>

definition square :: "real \<Rightarrow> real" where
  "square x = x * x"

text \<open>\<^verbatim>\<open>RbaEngine::huber_kernel\<close>, lines 794-797, with \<^verbatim>\<open>std::abs\<close> kept.\<close>

definition huber_kernel :: "real \<Rightarrow> real \<Rightarrow> real" where
  "huber_kernel delta kernel_param =
     \<bar>2 * square kernel_param * (sqrt (1 + square (delta / kernel_param)) - 1)\<bar>"

section \<open>The local-area visitor\<close>

text \<open>\<^verbatim>\<open>TOptimizeLocalAreaParams\<close>, lines 213-226, and its default constructor.\<close>

record TOptimizeLocalAreaParams =
  optimize_k2k_edges :: bool
  optimize_landmarks :: bool
  max_visitable_kf_id :: TKeyFrameID
  dont_optimize_landmarks_seen_less_than_n_times :: size_t

definition TOptimizeLocalAreaParams_default :: TOptimizeLocalAreaParams where
  "TOptimizeLocalAreaParams_default =
     \<lparr> optimize_k2k_edges = True,
       optimize_landmarks = True,
       max_visitable_kf_id = - 1,
       dont_optimize_landmarks_seen_less_than_n_times = 2 \<rparr>"

text \<open>
  Modelled from the spec: the edge structs \<^verbatim>\<open>k2k_edge_t\<close> and \<^verbatim>\<open>k2f_edge_t\<close>
  are declared in \<^verbatim>\<open>srba_types.h\<close>. The visitor reads \<^verbatim>\<open>edge->id\<close> of a
  kf-to-kf edge, and \<^verbatim>\<open>edge->feat_has_known_rel_pos\<close> and
  \<^verbatim>\<open>edge->obs.obs.feat_id\<close> of a kf-to-feature edge. Spec 3 adds what else an
  edge is: a kf-to-kf edge is an ordered pair of keyframes (\<open>edge_from\<close>,
  \<open>edge_to\<close>) with an ID; an observation is made from a keyframe (\<open>obs_kf_id\<close>)
  and has a vector of observed values (\<open>obs_arr\<close>). The relative pose of a
  kf-to-kf edge plays no part in what follows and is left out.
\<close>

record k2k_edge_t =
  edge_from :: TKeyFrameID
  edge_to :: TKeyFrameID
  edge_id :: size_t

record k2f_edge_t =
  obs_kf_id :: TKeyFrameID
  obs_feat_id :: TLandmarkID
  obs_arr :: "real list"
  feat_has_known_rel_pos :: bool

text \<open>
  \<^verbatim>\<open>VisitorOptimizeLocalArea\<close>, lines 548-623: the parameters it refers to and
  its three data members. (Its reference to the problem state is read by none
  of its methods.) \<^verbatim>\<open>std::map<TLandmarkID,size_t>\<close> is a partial map.
\<close>

record VisitorOptimizeLocalArea =
  params :: TOptimizeLocalAreaParams
  k2k_edges_to_optimize :: "size_t list"
  lm_IDs_to_optimize :: "size_t list"
  lm_times_seen :: "TLandmarkID \<rightharpoonup> size_t"

text \<open>The constructor: the vectors and the map start empty.\<close>

definition VisitorOptimizeLocalArea_ctor :: "TOptimizeLocalAreaParams \<Rightarrow> VisitorOptimizeLocalArea" where
  "VisitorOptimizeLocalArea_ctor ps =
     \<lparr> params = ps, k2k_edges_to_optimize = [], lm_IDs_to_optimize = [],
       lm_times_seen = Map.empty \<rparr>"

definition visit_filter_feat :: "VisitorOptimizeLocalArea \<Rightarrow> TLandmarkID \<Rightarrow> topo_dist_t \<Rightarrow> bool" where
  "visit_filter_feat v lm_ID cur_dist = False"

definition visit_feat :: "VisitorOptimizeLocalArea \<Rightarrow> TLandmarkID \<Rightarrow> topo_dist_t \<Rightarrow> VisitorOptimizeLocalArea" where
  "visit_feat v lm_ID cur_dist = v"

definition visit_filter_kf :: "VisitorOptimizeLocalArea \<Rightarrow> TKeyFrameID \<Rightarrow> topo_dist_t \<Rightarrow> bool" where
  "visit_filter_kf v kf_ID cur_dist = (kf_ID \<le> max_visitable_kf_id (params v))"

definition visit_kf :: "VisitorOptimizeLocalArea \<Rightarrow> TKeyFrameID \<Rightarrow> topo_dist_t \<Rightarrow> VisitorOptimizeLocalArea" where
  "visit_kf v kf_ID cur_dist = v"

definition visit_filter_k2k ::
  "VisitorOptimizeLocalArea \<Rightarrow> TKeyFrameID \<Rightarrow> TKeyFrameID \<Rightarrow> k2k_edge_t \<Rightarrow> topo_dist_t \<Rightarrow> bool" where
  "visit_filter_k2k v current_kf next_kf edge cur_dist = True"

definition visit_k2k ::
  "VisitorOptimizeLocalArea \<Rightarrow> TKeyFrameID \<Rightarrow> TKeyFrameID \<Rightarrow> k2k_edge_t \<Rightarrow> topo_dist_t
     \<Rightarrow> VisitorOptimizeLocalArea" where
  "visit_k2k v current_kf next_kf edge cur_dist =
     (if optimize_k2k_edges (params v)
      then v\<lparr>k2k_edges_to_optimize := k2k_edges_to_optimize v @ [edge_id edge]\<rparr>
      else v)"

definition visit_filter_k2f ::
  "VisitorOptimizeLocalArea \<Rightarrow> TKeyFrameID \<Rightarrow> k2f_edge_t \<Rightarrow> topo_dist_t \<Rightarrow> bool" where
  "visit_filter_k2f v current_kf edge cur_dist = optimize_landmarks (params v)"

text \<open>
  \<^verbatim>\<open>visit_k2f\<close>: \<^verbatim>\<open>lm_times_seen[lm_ID]\<close> inserts 0 for a missing key, the
  pre-increment adds 1 in \<^verbatim>\<open>size_t\<close> arithmetic (so it wraps), and the new
  count is compared with the threshold.
\<close>

definition visit_k2f ::
  "VisitorOptimizeLocalArea \<Rightarrow> TKeyFrameID \<Rightarrow> k2f_edge_t \<Rightarrow> topo_dist_t \<Rightarrow> VisitorOptimizeLocalArea" where
  "visit_k2f v current_kf edge cur_dist =
     (if \<not> feat_has_known_rel_pos edge then
        (let lm_ID = obs_feat_id edge;
             n = (case lm_times_seen v lm_ID of None \<Rightarrow> 0 | Some c \<Rightarrow> c) + 1;
             v' = v\<lparr>lm_times_seen := (lm_times_seen v)(lm_ID \<mapsto> n)\<rparr>
         in if n = dont_optimize_landmarks_seen_less_than_n_times (params v)
            then v'\<lparr>lm_IDs_to_optimize := lm_IDs_to_optimize v' @ [lm_ID]\<rparr>
            else v')
      else v)"

text \<open>
  A run of calls of \<open>visit_k2f\<close> on one visitor object, in the order in which
  the search hands over the edges (with the keyframe and the distance of each
  call).
\<close>

fun visit_k2f_seq ::
  "VisitorOptimizeLocalArea \<Rightarrow> (TKeyFrameID \<times> k2f_edge_t \<times> topo_dist_t) list \<Rightarrow> VisitorOptimizeLocalArea" where
  "visit_k2f_seq v [] = v"
| "visit_k2f_seq v ((kf, e, d) # es) = visit_k2f_seq (visit_k2f v kf e d) es"

text \<open>
  How many of the calls in a run count for landmark \<open>lm\<close>: those on an edge
  to \<open>lm\<close> whose \<open>feat_has_known_rel_pos\<close> is false.
\<close>

definition times_counted :: "TLandmarkID \<Rightarrow> (TKeyFrameID \<times> k2f_edge_t \<times> topo_dist_t) list \<Rightarrow> nat" where
  "times_counted lm es =
     length (filter (\<lambda>(kf, e, d). \<not> feat_has_known_rel_pos e \<and> obs_feat_id e = lm) es)"

text \<open>How many calls in a run are on an edge to landmark \<open>lm\<close>, of either kind.\<close>

definition times_encountered :: "TLandmarkID \<Rightarrow> (TKeyFrameID \<times> k2f_edge_t \<times> topo_dist_t) list \<Rightarrow> nat" where
  "times_encountered lm es = length (filter (\<lambda>(kf, e, d). obs_feat_id e = lm) es)"

text \<open>The value \<^verbatim>\<open>lm_times_seen[lm]\<close> would read: 0 for a landmark not yet in the map.\<close>

definition seen_count :: "VisitorOptimizeLocalArea \<Rightarrow> TLandmarkID \<Rightarrow> size_t" where
  "seen_count v lm = (case lm_times_seen v lm of None \<Rightarrow> 0 | Some c \<Rightarrow> c)"

text \<open>Two concrete runs: landmark 7 seen three times and landmark 9 once, all
  with unknown position; and one visit of a known-position landmark.\<close>

definition run_unknown :: "(TKeyFrameID \<times> k2f_edge_t \<times> topo_dist_t) list" where
  "run_unknown =
     [(0, \<lparr>obs_kf_id = 0, obs_feat_id = 7, obs_arr = [], feat_has_known_rel_pos = False\<rparr>, 0),
      (1, \<lparr>obs_kf_id = 1, obs_feat_id = 7, obs_arr = [], feat_has_known_rel_pos = False\<rparr>, 1),
      (1, \<lparr>obs_kf_id = 1, obs_feat_id = 9, obs_arr = [], feat_has_known_rel_pos = False\<rparr>, 1),
      (2, \<lparr>obs_kf_id = 2, obs_feat_id = 7, obs_arr = [], feat_has_known_rel_pos = False\<rparr>, 2)]"

definition run_known :: "(TKeyFrameID \<times> k2f_edge_t \<times> topo_dist_t) list" where
  "run_known = [(0, \<lparr>obs_kf_id = 0, obs_feat_id = 7, obs_arr = [], feat_has_known_rel_pos = True\<rparr>, 0)]"

section \<open>Bounded spanning trees\<close>

text \<open>The kf-to-kf graph is walked with the edge direction ignored.\<close>

definition adjacent :: "k2k_edge_t list \<Rightarrow> TKeyFrameID \<Rightarrow> TKeyFrameID \<Rightarrow> bool" where
  "adjacent es u v \<longleftrightarrow>
     (\<exists>e \<in> set es. (edge_from e = u \<and> edge_to e = v) \<or> (edge_from e = v \<and> edge_to e = u))"

definition neighbours :: "k2k_edge_t list \<Rightarrow> TKeyFrameID \<Rightarrow> TKeyFrameID list" where
  "neighbours es u =
     concat (map (\<lambda>e. (if edge_from e = u then [edge_to e] else []) @
                       (if edge_to e = u then [edge_from e] else [])) es)"

text \<open>\<open>hops es r n v\<close>: keyframe \<open>v\<close> is reached from \<open>r\<close> by a walk of exactly
  \<open>n\<close> kf-to-kf edges. The true hop count is the length of a shortest walk.\<close>

inductive hops :: "k2k_edge_t list \<Rightarrow> TKeyFrameID \<Rightarrow> nat \<Rightarrow> TKeyFrameID \<Rightarrow> bool"
  for es :: "k2k_edge_t list" and r :: TKeyFrameID where
  hops_0: "hops es r 0 r"
| hops_Suc: "hops es r n u \<Longrightarrow> adjacent es u v \<Longrightarrow> hops es r (Suc n) v"


definition shortest :: "k2k_edge_t list \<Rightarrow> TKeyFrameID \<Rightarrow> TKeyFrameID \<Rightarrow> nat \<Rightarrow> bool" where
  "shortest es r v d \<longleftrightarrow> hops es r d v \<and> (\<forall>n. hops es r n v \<longrightarrow> d \<le> n)"

text \<open>Modelled from the spec: an entry of a symbolic tree (spec 3): the
  predecessor of the keyframe on the path from the root (the root itself for
  the root) and the topological distance.\<close>

record TSpanTreeEntry =
  st_pred :: TKeyFrameID
  st_dist :: nat

type_synonym span_tree = "TKeyFrameID \<rightharpoonup> TSpanTreeEntry"

text \<open>
  Modelled from the spec: the spanning-tree code is in
  \<^verbatim>\<open>impl/spantree_update_symbolic.h\<close>. Spec 3 and 4.2: the tree of a root holds,
  for every keyframe within \<open>max_tree_depth\<close> edges, a predecessor and a
  distance; a tree is grown by BFS up to \<open>max_tree_depth\<close>, and ties between
  predecessors at equal distance go to the lowest predecessor ID. One level of
  the search: the keyframes not yet in the tree that are adjacent to the
  current level enter with distance \<open>k + 1\<close> and the lowest adjacent keyframe
  of the current level as predecessor.
\<close>

definition bfs_tree_step ::
  "k2k_edge_t list \<Rightarrow> nat \<Rightarrow> TKeyFrameID list \<times> span_tree \<Rightarrow> TKeyFrameID list \<times> span_tree" where
  "bfs_tree_step es k FT =
     (let F = fst FT; T = snd FT;
          found = remdups (filter (\<lambda>v. T v = None) (concat (map (neighbours es) F)))
      in (found,
          (\<lambda>v. if v \<in> set found
               then Some \<lparr>st_pred = Min (set (filter (\<lambda>u. v \<in> set (neighbours es u)) F)),
                           st_dist = Suc k\<rparr>
               else T v)))"

fun bfs_tree_levels ::
  "nat \<Rightarrow> k2k_edge_t list \<Rightarrow> nat \<Rightarrow> TKeyFrameID list \<times> span_tree \<Rightarrow> span_tree" where
  "bfs_tree_levels 0 es k FT = snd FT"
| "bfs_tree_levels (Suc n) es k FT = bfs_tree_levels n es (Suc k) (bfs_tree_step es k FT)"

definition bfs_tree :: "k2k_edge_t list \<Rightarrow> nat \<Rightarrow> TKeyFrameID \<Rightarrow> span_tree" where
  "bfs_tree es max_tree_depth r =
     bfs_tree_levels max_tree_depth es 0 ([r], [r \<mapsto> \<lparr>st_pred = r, st_dist = 0\<rparr>])"

text \<open>Growing a tree by adding entries: a keyframe that has an entry keeps it,
  and a keyframe without one gets the entry that \<open>reach\<close> has for it, if any.\<close>

definition grow_tree :: "span_tree \<Rightarrow> span_tree \<Rightarrow> span_tree" where
  "grow_tree T reach = (\<lambda>v. case T v of Some e \<Rightarrow> Some e | None \<Rightarrow> reach v)"

text \<open>
  Modelled from the spec: \<open>update_symbolic_new_node\<close> (same file), called once
  the new keyframe and its incident edges are in the graph \<open>es\<close>. Spec 4.2:
  "Grows every tree rooted at a KF within \<open>max_tree_depth\<close> of \<open>new_kf\<close> by
  adding reachable entries; grows \<open>new_kf\<close>'s own tree by BFS up to
  \<open>max_tree_depth\<close>." The new keyframe's tree is the bounded search from it. The
  tree of another root within \<open>max_tree_depth\<close> of the new keyframe keeps the
  entries it has and gains an entry for every keyframe that the bounded search
  from that root reaches on the graph with the new edges and that had none. The
  other trees are not touched.
\<close>

definition update_symbolic_new_node ::
  "k2k_edge_t list \<Rightarrow> nat \<Rightarrow> (TKeyFrameID \<Rightarrow> span_tree) \<Rightarrow> TKeyFrameID \<Rightarrow> (TKeyFrameID \<Rightarrow> span_tree)" where
  "update_symbolic_new_node es max_tree_depth trees new_kf =
     (let own = bfs_tree es max_tree_depth new_kf
      in (\<lambda>r. if r = new_kf then own
               else if own r \<noteq> None then grow_tree (trees r) (bfs_tree es max_tree_depth r)
               else trees r))"

text \<open>The invariant of the bounded search after level \<open>k\<close>.\<close>

definition bfs_inv ::
  "k2k_edge_t list \<Rightarrow> TKeyFrameID \<Rightarrow> nat \<Rightarrow> TKeyFrameID list \<times> span_tree \<Rightarrow> bool" where
  "bfs_inv es r k FT \<longleftrightarrow>
     (\<forall>v. (snd FT v \<noteq> None) = (\<exists>n \<le> k. hops es r n v)) \<and>
     (\<forall>v e. snd FT v = Some e \<longrightarrow> shortest es r v (st_dist e)) \<and>
     (\<forall>v. (v \<in> set (fst FT)) = (\<exists>e. snd FT v = Some e \<and> st_dist e = k)) \<and>
     (\<forall>v e. snd FT v = Some e \<longrightarrow> v \<noteq> r \<longrightarrow>
        adjacent es (st_pred e) v \<and>
        (\<exists>e'. snd FT (st_pred e) = Some e' \<and> Suc (st_dist e') = st_dist e))"



text \<open>The tree of root \<open>r\<close> is sound: a keyframe with an entry is joined to the
  root by a walk of as many kf-to-kf edges as the entry's distance says.\<close>

definition tree_sound :: "k2k_edge_t list \<Rightarrow> TKeyFrameID \<Rightarrow> span_tree \<Rightarrow> bool" where
  "tree_sound es r T \<longleftrightarrow> (\<forall>v e. T v = Some e \<longrightarrow> hops es r (st_dist e) v)"



section \<open>The search that drives the visitor\<close>

text \<open>
  Modelled from the spec: the problem state \<^verbatim>\<open>TRBA_Problem_state\<close> is declared
  in \<^verbatim>\<open>srba_types.h\<close>. Spec 3: the number of keyframes (IDs are dense from 0),
  the kf-to-kf edges and the observations (kf-to-feature edges) in creation
  order, and the known-position and the unknown-position landmarks
  (\<^verbatim>\<open>get_known_feats\<close>, \<^verbatim>\<open>get_unknown_feats\<close> in RbaEngine.h), each landmark with
  its base keyframe and relative position.
\<close>

record TRelativeLandmarkPos =
  id_frame_base :: TKeyFrameID
  pos :: "real list"

record rba_problem_state_t =
  num_keyframes :: nat
  k2k_edges :: "k2k_edge_t list"
  all_observations :: "k2f_edge_t list"
  known_lms :: "TLandmarkID \<rightharpoonup> TRelativeLandmarkPos"
  unknown_lms :: "TLandmarkID \<rightharpoonup> TRelativeLandmarkPos"

text \<open>
  What one exploration has done so far: the visitor object, the keyframes
  expanded (in order), the keyframes already discovered, the keyframes found for
  the next level, the kf-to-kf edges already handed to the visitor, the landmarks
  already offered to the feature filter, and the landmark nodes visited.
\<close>

record bfs_run =
  visitor :: VisitorOptimizeLocalArea
  kfs_visited :: "TKeyFrameID list"
  kfs_found :: "TKeyFrameID list"
  next_level :: "TKeyFrameID list"
  k2k_done :: "size_t list"
  feats_offered :: "TLandmarkID list"
  feats_visited :: "TLandmarkID list"

definition other_end :: "k2k_edge_t \<Rightarrow> TKeyFrameID \<Rightarrow> TKeyFrameID" where
  "other_end e k = (if edge_from e = k then edge_to e else edge_from e)"

text \<open>One kf-to-feature edge met at keyframe \<open>k\<close>, distance \<open>d\<close>: the landmark
  node is offered to the feature filter once, the edge to the edge filter.\<close>

definition bfs_k2f :: "TKeyFrameID \<Rightarrow> topo_dist_t \<Rightarrow> bfs_run \<Rightarrow> k2f_edge_t \<Rightarrow> bfs_run" where
  "bfs_k2f k d b e =
     (let lm = obs_feat_id e;
          b1 = (if lm \<in> set (feats_offered b) then b
                else (if visit_filter_feat (visitor b) lm d
                      then b\<lparr>visitor := visit_feat (visitor b) lm d,
                             feats_visited := feats_visited b @ [lm]\<rparr>
                      else b) \<lparr>feats_offered := feats_offered b @ [lm]\<rparr>)
      in if visit_filter_k2f (visitor b1) k e d
         then b1\<lparr>visitor := visit_k2f (visitor b1) k e d\<rparr>
         else b1)"

text \<open>Keyframe \<open>k\<close> at distance \<open>d\<close> is visited, and then its observations.\<close>

definition visit_node ::
  "rba_problem_state_t \<Rightarrow> topo_dist_t \<Rightarrow> bfs_run \<Rightarrow> TKeyFrameID \<Rightarrow> bfs_run" where
  "visit_node st d b k =
     foldl (bfs_k2f k d)
       (b\<lparr>visitor := visit_kf (visitor b) k d, kfs_visited := kfs_visited b @ [k]\<rparr>)
       (filter (\<lambda>e. obs_kf_id e = k) (all_observations st))"

text \<open>One kf-to-kf edge met at keyframe \<open>k\<close>, distance \<open>d\<close>, is handed to the
  visitor, once.\<close>

definition hand_k2k :: "TKeyFrameID \<Rightarrow> topo_dist_t \<Rightarrow> bfs_run \<Rightarrow> k2k_edge_t \<Rightarrow> bfs_run" where
  "hand_k2k k d b e =
     (if edge_id e \<in> set (k2k_done b) then b
      else (if visit_filter_k2k (visitor b) k (other_end e k) e d
            then b\<lparr>visitor := visit_k2k (visitor b) k (other_end e k) e d\<rparr>
            else b) \<lparr>k2k_done := k2k_done b @ [edge_id e]\<rparr>)"

text \<open>In the breadth-first search the keyframe at the other end of the edge
  joins the next level when it is new and \<open>visit_filter_kf\<close> lets it in.\<close>

definition bfs_k2k :: "TKeyFrameID \<Rightarrow> topo_dist_t \<Rightarrow> bfs_run \<Rightarrow> k2k_edge_t \<Rightarrow> bfs_run" where
  "bfs_k2k k d b e =
     (let nxt = other_end e k;
          b1 = hand_k2k k d b e
      in if nxt \<notin> set (kfs_found b1) \<and> visit_filter_kf (visitor b1) nxt (d + 1)
         then b1\<lparr>kfs_found := kfs_found b1 @ [nxt], next_level := next_level b1 @ [nxt]\<rparr>
         else b1)"

text \<open>Expanding keyframe \<open>k\<close> at distance \<open>d\<close> in the breadth-first search: the
  keyframe and its observations are visited, then (below the maximum distance)
  its kf-to-kf edges are followed.\<close>

definition bfs_expand ::
  "rba_problem_state_t \<Rightarrow> topo_dist_t \<Rightarrow> topo_dist_t \<Rightarrow> bfs_run \<Rightarrow> TKeyFrameID \<Rightarrow> bfs_run" where
  "bfs_expand st max_distance d b k =
     (let b2 = visit_node st d b k
      in if d < max_distance
         then foldl (bfs_k2k k d) b2
                (filter (\<lambda>e. edge_from e = k \<or> edge_to e = k) (k2k_edges st))
         else b2)"

text \<open>The levels of the search, nearest first; \<open>n\<close> is the number of levels
  still allowed below the current one.\<close>

primrec bfs_levels ::
  "nat \<Rightarrow> rba_problem_state_t \<Rightarrow> topo_dist_t \<Rightarrow> topo_dist_t \<Rightarrow> TKeyFrameID list \<Rightarrow> bfs_run \<Rightarrow> bfs_run" where
  "bfs_levels 0 st max_distance d level b =
     foldl (bfs_expand st max_distance d) (b\<lparr>next_level := []\<rparr>) level"
| "bfs_levels (Suc n) st max_distance d level b =
     (let b' = foldl (bfs_expand st max_distance d) (b\<lparr>next_level := []\<rparr>) level
      in bfs_levels n st max_distance (d + 1) (next_level b') b')"

text \<open>With the prebuilt trees nothing is searched: a keyframe at distance \<open>d\<close>
  and its observations are visited, and (below the maximum distance) its
  kf-to-kf edges are handed to the visitor.\<close>

definition prebuilt_expand ::
  "rba_problem_state_t \<Rightarrow> topo_dist_t \<Rightarrow> topo_dist_t \<Rightarrow> bfs_run \<Rightarrow> TKeyFrameID \<Rightarrow> bfs_run" where
  "prebuilt_expand st max_distance d b k =
     (let b2 = visit_node st d b k
      in if d < max_distance
         then foldl (hand_k2k k d) b2
                (filter (\<lambda>e. edge_from e = k \<or> edge_to e = k) (k2k_edges st))
         else b2)"

text \<open>Keyframe \<open>k\<close> is taken from the root's prebuilt tree \<open>T\<close> when it has an
  entry there with a distance up to the maximum and \<open>visit_filter_kf\<close> lets it
  in.\<close>

definition prebuilt_visit ::
  "rba_problem_state_t \<Rightarrow> span_tree \<Rightarrow> TKeyFrameID \<Rightarrow> topo_dist_t \<Rightarrow> bfs_run \<Rightarrow> TKeyFrameID \<Rightarrow> bfs_run" where
  "prebuilt_visit st T root_id max_distance b k =
     (case T k of
        None \<Rightarrow> b
      | Some e \<Rightarrow>
          if k \<noteq> root_id \<and> st_dist e \<le> unat max_distance
             \<and> visit_filter_kf (visitor b) k (of_nat (st_dist e))
          then prebuilt_expand st max_distance (of_nat (st_dist e)) b k
          else b)"

text \<open>
  Modelled from the spec: \<^verbatim>\<open>bfs_visitor\<close> is declared in RbaEngine.h (lines
  382-398: "Visits all k2k & k2f edges following a BFS starting at a given
  starting node and up to a given maximum depth. Only k2k edges are considered
  for BFS paths") and its body is in \<^verbatim>\<open>impl/bfs_visitor.h\<close>. This is the search
  with the one \<open>VisitorOptimizeLocalArea\<close> object in all four visitor roles, as
  \<open>optimize_local_area\<close> runs it from \<open>root_id\<close> up to \<open>max_distance\<close>: the
  root is expanded at distance 0, and every other keyframe, edge and landmark
  node passes the visitor's filter before its visit method is called. The
  declaration's flag \<open>rely_on_prebuilt_spanning_trees\<close> chooses where the
  keyframes and their distances come from: from a breadth-first search over the
  kf-to-kf edges when it is false, and from the root's symbolic spanning tree
  (\<open>sym_trees root_id\<close>, the bounded trees of spec 3 that the engine keeps up
  to date) when it is true.
\<close>

definition bfs_visitor ::
  "rba_problem_state_t \<Rightarrow> (TKeyFrameID \<Rightarrow> span_tree) \<Rightarrow> TKeyFrameID \<Rightarrow> topo_dist_t \<Rightarrow> bool
     \<Rightarrow> VisitorOptimizeLocalArea \<Rightarrow> bfs_run" where
  "bfs_visitor st sym_trees root_id max_distance rely_on_prebuilt_spanning_trees v =
     (let b0 = \<lparr> visitor = v, kfs_visited = [], kfs_found = [root_id], next_level = [],
                 k2k_done = [], feats_offered = [], feats_visited = [] \<rparr>
      in if rely_on_prebuilt_spanning_trees
         then foldl (prebuilt_visit st (sym_trees root_id) root_id max_distance)
                (prebuilt_expand st max_distance 0 b0 root_id)
                (map of_nat [0 ..< num_keyframes st])
         else bfs_levels (unat max_distance) st max_distance 0 [root_id] b0)"

text \<open>A chain of three keyframes 0 - 1 - 2 with one observation at keyframe 1.\<close>

definition chain3 :: rba_problem_state_t where
  "chain3 =
     \<lparr> num_keyframes = 3,
       k2k_edges = [\<lparr>edge_from = 1, edge_to = 0, edge_id = 0\<rparr>,
                    \<lparr>edge_from = 2, edge_to = 1, edge_id = 1\<rparr>],
       all_observations = [\<lparr>obs_kf_id = 1, obs_feat_id = 7, obs_arr = [], feat_has_known_rel_pos = False\<rparr>],
       known_lms = Map.empty,
       unknown_lms = [7 \<mapsto> \<lparr>id_frame_base = 1, pos = []\<rparr>] \<rparr>"

text \<open>Three keyframes of which only 0 and 1 are joined by a kf-to-kf edge;
  keyframes 0 and 2 both observe landmark 7.\<close>

definition shared_landmark :: rba_problem_state_t where
  "shared_landmark =
     \<lparr> num_keyframes = 3,
       k2k_edges = [\<lparr>edge_from = 1, edge_to = 0, edge_id = 0\<rparr>],
       all_observations =
         [\<lparr>obs_kf_id = 0, obs_feat_id = 7, obs_arr = [], feat_has_known_rel_pos = False\<rparr>,
          \<lparr>obs_kf_id = 2, obs_feat_id = 7, obs_arr = [], feat_has_known_rel_pos = False\<rparr>],
       known_lms = Map.empty,
       unknown_lms = [7 \<mapsto> \<lparr>id_frame_base = 0, pos = []\<rparr>] \<rparr>"

text \<open>The invariant of the search about keyframes: the visitor's bound is
  unchanged, and every keyframe expanded or queued is the root or within the
  bound.\<close>

definition kf_inv :: "TKeyFrameID \<Rightarrow> TKeyFrameID \<Rightarrow> bfs_run \<Rightarrow> bool" where
  "kf_inv r mx b \<longleftrightarrow>
     max_visitable_kf_id (params (visitor b)) = mx \<and>
     (\<forall>k \<in> set (kfs_visited b) \<union> set (next_level b). k = r \<or> k \<le> mx)"

text \<open>The invariant of the search about walks: every keyframe expanded is
  joined to the root by a walk of at most \<open>j\<close> kf-to-kf edges, and every
  keyframe queued for the next level by one of at most \<open>j + 1\<close>.\<close>

definition walk_inv :: "k2k_edge_t list \<Rightarrow> TKeyFrameID \<Rightarrow> nat \<Rightarrow> bfs_run \<Rightarrow> bool" where
  "walk_inv es r j b \<longleftrightarrow>
     (\<forall>k \<in> set (kfs_visited b). \<exists>n \<le> j. hops es r n k) \<and>
     (\<forall>k \<in> set (next_level b). \<exists>n \<le> Suc j. hops es r n k)"

section \<open>Adding observations and keyframes\<close>

text \<open>The error kinds of the spec that abort a mutating operation.\<close>

datatype rba_error = InvalidId | DuplicateKnownLandmark | MissingInitialGuess | InconsistentGraph

text \<open>Modelled from the spec: \<^verbatim>\<open>observation_t\<close> (declared with the observation
  traits): the observed landmark and the observed values.\<close>

record observation_t =
  feat_id :: TLandmarkID
  obs_data :: "real list"

text \<open>
  One call of \<open>add_observation\<close>: the observing keyframe, the observation and
  the two optional pointers of the declaration (lines 519-524), \<open>None\<close> for
  \<^verbatim>\<open>NULL\<close>.
\<close>

record add_observation_args =
  observing_kf_id :: TKeyFrameID
  new_obs :: observation_t
  fixed_relative_position :: "real list option"
  unknown_relative_position_init_val :: "real list option"

definition append_observation ::
  "rba_problem_state_t \<Rightarrow> add_observation_args \<Rightarrow> bool \<Rightarrow> rba_problem_state_t" where
  "append_observation st a known =
     st\<lparr>all_observations := all_observations st @
          [\<lparr>obs_kf_id = observing_kf_id a, obs_feat_id = feat_id (new_obs a),
            obs_arr = obs_data (new_obs a), feat_has_known_rel_pos = known\<rparr>]\<rparr>"

text \<open>
  Modelled from the spec: the body of \<open>add_observation\<close> is in
  \<^verbatim>\<open>impl/add-observations.h\<close>; RbaEngine.h has its declaration and comment.
  Spec 4.1 and 7: a landmark's base keyframe and classification are set on its
  first observation and never change; a non-null \<open>fixed_relative_position\<close>
  is the first observation of a known-position landmark, so it fails with
  \<open>DuplicateKnownLandmark\<close> when the landmark is already there; the first
  observation of an unknown-position landmark needs the initial value
  (\<open>MissingInitialGuess\<close> otherwise); the result is the 0-based index of the new
  observation. An error is returned before anything is changed.
\<close>

definition add_observation ::
  "rba_problem_state_t \<Rightarrow> add_observation_args \<Rightarrow> rba_error + (rba_problem_state_t \<times> nat)" where
  "add_observation st a =
     (let lm = feat_id (new_obs a); idx = length (all_observations st)
      in case fixed_relative_position a of
           Some p \<Rightarrow>
             if known_lms st lm \<noteq> None \<or> unknown_lms st lm \<noteq> None
             then Inl DuplicateKnownLandmark
             else Inr (append_observation
                         (st\<lparr>known_lms := (known_lms st)
                               (lm \<mapsto> \<lparr>id_frame_base = observing_kf_id a, pos = p\<rparr>)\<rparr>) a True,
                       idx)
         | None \<Rightarrow>
             if known_lms st lm \<noteq> None then Inr (append_observation st a True, idx)
             else if unknown_lms st lm \<noteq> None then Inr (append_observation st a False, idx)
             else (case unknown_relative_position_init_val a of
                     None \<Rightarrow> Inl MissingInitialGuess
                   | Some p \<Rightarrow>
                       Inr (append_observation
                              (st\<lparr>unknown_lms := (unknown_lms st)
                                    (lm \<mapsto> \<lparr>id_frame_base = observing_kf_id a, pos = p\<rparr>)\<rparr>) a False,
                            idx)))"

text \<open>
  The call as the engine's caller sees it: the state after the call and its
  outcome. A failed call throws, and the state is the one before the call.
\<close>

definition add_observation_call ::
  "rba_problem_state_t \<Rightarrow> add_observation_args \<Rightarrow> rba_problem_state_t \<times> (rba_error + nat)" where
  "add_observation_call st a =
     (case add_observation st a of
        Inl e \<Rightarrow> (st, Inl e)
      | Inr (st', idx) \<Rightarrow> (st', Inr idx))"

text \<open>The state after a series of calls, whether they succeed or fail.\<close>

fun add_observation_calls :: "rba_problem_state_t \<Rightarrow> add_observation_args list \<Rightarrow> rba_problem_state_t" where
  "add_observation_calls st [] = st"
| "add_observation_calls st (a # as) = add_observation_calls (fst (add_observation_call st a)) as"

text \<open>
  Modelled from the spec: \<open>clear\<close> (the empty problem) and \<open>alloc_keyframe\<close>
  (body in \<^verbatim>\<open>impl/alloc_keyframe.h\<close>): keyframe IDs are dense, assigned in
  sequence from 0.
\<close>

definition rba_clear :: rba_problem_state_t where
  "rba_clear = \<lparr> num_keyframes = 0, k2k_edges = [], all_observations = [],
                 known_lms = Map.empty, unknown_lms = Map.empty \<rparr>"











text \<open>Concrete calls: a known-position landmark 5 asserted from keyframes 0 and 1,
  and a first observation of landmark 6 with neither pointer set.\<close>

definition assert_known_5_at :: "TKeyFrameID \<Rightarrow> add_observation_args" where
  "assert_known_5_at k =
     \<lparr> observing_kf_id = k, new_obs = \<lparr>feat_id = 5, obs_data = [1, 2]\<rparr>,
       fixed_relative_position = Some [0, 0, 1], unknown_relative_position_init_val = None \<rparr>"

definition observe_6_no_guess :: add_observation_args where
  "observe_6_no_guess =
     \<lparr> observing_kf_id = 0, new_obs = \<lparr>feat_id = 6, obs_data = [3, 4]\<rparr>,
       fixed_relative_position = None, unknown_relative_position_init_val = None \<rparr>"

definition one_keyframe :: rba_problem_state_t where
  "one_keyframe = rba_clear\<lparr>num_keyframes := 1\<rparr>"

text \<open>A landmark is registered once it is in one of the two landmark maps.\<close>

definition lm_registered :: "rba_problem_state_t \<Rightarrow> TLandmarkID \<Rightarrow> bool" where
  "lm_registered st lm \<longleftrightarrow> known_lms st lm \<noteq> None \<or> unknown_lms st lm \<noteq> None"




section \<open>Theorems\<close>

subsection \<open>TOptimizeExtraOutputInfo::clear\<close>

lemma clear_counters:
  "num_observations (TOptimizeExtraOutputInfo_clear c s) = 0"
  "num_jacobians (TOptimizeExtraOutputInfo_clear c s) = 0"
  "num_kf2kf_edges_optimized (TOptimizeExtraOutputInfo_clear c s) = 0"
  "num_kf2lm_edges_optimized (TOptimizeExtraOutputInfo_clear c s) = 0"
  "num_total_scalar_optimized (TOptimizeExtraOutputInfo_clear c s) = 0"
  "num_kf_optimized (TOptimizeExtraOutputInfo_clear c s) = 0"
  "num_lm_optimized (TOptimizeExtraOutputInfo_clear c s) = 0"
  "num_span_tree_numeric_updates (TOptimizeExtraOutputInfo_clear c s) = 0"
  by (simp_all add: TOptimizeExtraOutputInfo_clear_def)

lemma clear_reals:
  "total_sqr_error_init (TOptimizeExtraOutputInfo_clear c s) = 0"
  "total_sqr_error_final (TOptimizeExtraOutputInfo_clear c s) = 0"
  "HAp_condition_number (TOptimizeExtraOutputInfo_clear c s) = 0"
  by (simp_all add: TOptimizeExtraOutputInfo_clear_def)

lemma clear_sparsity:
  "sparsity_dh_dAp_nnz (TOptimizeExtraOutputInfo_clear c s) = 0"
  "sparsity_dh_dAp_max_size (TOptimizeExtraOutputInfo_clear c s) = 0"
  "sparsity_dh_df_nnz (TOptimizeExtraOutputInfo_clear c s) = 0"
  "sparsity_dh_df_max_size (TOptimizeExtraOutputInfo_clear c s) = 0"
  "sparsity_HAp_nnz (TOptimizeExtraOutputInfo_clear c s) = 0"
  "sparsity_HAp_max_size (TOptimizeExtraOutputInfo_clear c s) = 0"
  "sparsity_Hf_nnz (TOptimizeExtraOutputInfo_clear c s) = 0"
  "sparsity_Hf_max_size (TOptimizeExtraOutputInfo_clear c s) = 0"
  "sparsity_HApf_nnz (TOptimizeExtraOutputInfo_clear c s) = 0"
  "sparsity_HApf_max_size (TOptimizeExtraOutputInfo_clear c s) = 0"
  by (simp_all add: TOptimizeExtraOutputInfo_clear_def)

lemma clear_containers:
  "optimized_k2k_edge_indices (TOptimizeExtraOutputInfo_clear c s) = []"
  "optimized_landmark_indices (TOptimizeExtraOutputInfo_clear c s) = []"
  "extra_results (TOptimizeExtraOutputInfo_clear c s) = c (extra_results s)"
  by (simp_all add: TOptimizeExtraOutputInfo_clear_def)

lemma clear_obs_rmse:
  "obs_rmse (TOptimizeExtraOutputInfo_clear c s) = obs_rmse s"
  by (simp add: TOptimizeExtraOutputInfo_clear_def)

text \<open>
  Claim C9. \<^verbatim>\<open>TOptimizeExtraOutputInfo::clear()\<close> sets the eight counters, the two
  squared-error totals, the condition number and the ten sparsity statistics
  to zero, empties both index vectors and clears \<^verbatim>\<open>extra_results\<close> (through
  that member's own \<^verbatim>\<open>clear()\<close>), and leaves \<^verbatim>\<open>obs_rmse\<close> as it was. The result
  is the same record whatever the other fields held before, so the only field of
  a cleared object that still depends on the old content is \<^verbatim>\<open>obs_rmse\<close>; the
  default constructor, which only calls \<^verbatim>\<open>clear()\<close>, therefore hands out an
  object whose \<^verbatim>\<open>obs_rmse\<close> is the value the raw storage held.
\<close>

theorem TOptimizeExtraOutputInfo_clear_frame:
  "TOptimizeExtraOutputInfo_clear c s =
     \<lparr> num_observations = 0, num_jacobians = 0, num_kf2kf_edges_optimized = 0,
       num_kf2lm_edges_optimized = 0, num_total_scalar_optimized = 0,
       num_kf_optimized = 0, num_lm_optimized = 0, num_span_tree_numeric_updates = 0,
       obs_rmse = obs_rmse s,
       total_sqr_error_init = 0, total_sqr_error_final = 0, HAp_condition_number = 0,
       sparsity_dh_dAp_nnz = 0, sparsity_dh_dAp_max_size = 0,
       sparsity_dh_df_nnz = 0, sparsity_dh_df_max_size = 0,
       sparsity_HAp_nnz = 0, sparsity_HAp_max_size = 0,
       sparsity_Hf_nnz = 0, sparsity_Hf_max_size = 0,
       sparsity_HApf_nnz = 0, sparsity_HApf_max_size = 0,
       optimized_k2k_edge_indices = [], optimized_landmark_indices = [],
       extra_results = c (extra_results s) \<rparr>
   \<and> obs_rmse (TOptimizeExtraOutputInfo_clear c s) = obs_rmse s
   \<and> obs_rmse (TOptimizeExtraOutputInfo_ctor c raw) = obs_rmse raw"
  by (cases s) (simp add: TOptimizeExtraOutputInfo_clear_def TOptimizeExtraOutputInfo_ctor_def)

subsection \<open>TNewKeyFrameInfo::clear\<close>

text \<open>
  Claim C10. \<^verbatim>\<open>TNewKeyFrameInfo::clear()\<close> sets \<^verbatim>\<open>kf_id\<close> to the cast of \<^verbatim>\<open>-1\<close>,
  which is the largest value of the unsigned identifier type, empties
  \<^verbatim>\<open>created_edge_ids\<close>, clears \<^verbatim>\<open>optimize_results\<close> (every counter, total and
  statistic of it is zero and both index vectors are empty afterwards, its
  \<^verbatim>\<open>extra_results\<close> is cleared by that member's own \<^verbatim>\<open>clear()\<close>, and its
  \<^verbatim>\<open>obs_rmse\<close> is as before) and does not touch \<^verbatim>\<open>optimize_results_stg1\<close>.
\<close>

theorem TNewKeyFrameInfo_clear_frame:
  "TNewKeyFrameInfo_clear c i =
     \<lparr> kf_id = - 1,
       created_edge_ids = [],
       optimize_results =
         \<lparr> num_observations = 0, num_jacobians = 0, num_kf2kf_edges_optimized = 0,
           num_kf2lm_edges_optimized = 0, num_total_scalar_optimized = 0,
           num_kf_optimized = 0, num_lm_optimized = 0, num_span_tree_numeric_updates = 0,
           obs_rmse = obs_rmse (optimize_results i),
           total_sqr_error_init = 0, total_sqr_error_final = 0, HAp_condition_number = 0,
           sparsity_dh_dAp_nnz = 0, sparsity_dh_dAp_max_size = 0,
           sparsity_dh_df_nnz = 0, sparsity_dh_df_max_size = 0,
           sparsity_HAp_nnz = 0, sparsity_HAp_max_size = 0,
           sparsity_Hf_nnz = 0, sparsity_Hf_max_size = 0,
           sparsity_HApf_nnz = 0, sparsity_HApf_max_size = 0,
           optimized_k2k_edge_indices = [], optimized_landmark_indices = [],
           extra_results = c (extra_results (optimize_results i)) \<rparr>,
       optimize_results_stg1 = optimize_results_stg1 i \<rparr>
   \<and> kf_id (TNewKeyFrameInfo_clear c i) = - 1
   \<and> (\<forall>w. w \<le> kf_id (TNewKeyFrameInfo_clear c i))
   \<and> created_edge_ids (TNewKeyFrameInfo_clear c i) = []
   \<and> optimize_results (TNewKeyFrameInfo_clear c i)
       = TOptimizeExtraOutputInfo_clear c (optimize_results i)
   \<and> optimize_results_stg1 (TNewKeyFrameInfo_clear c i) = optimize_results_stg1 i"
proof -
  obtain k es r1 r2 where i: "i = \<lparr>kf_id = k, created_edge_ids = es, optimize_results = r1,
      optimize_results_stg1 = r2\<rparr>"
    by (cases i) simp
  show ?thesis
    unfolding i by (cases r1) (simp add: TNewKeyFrameInfo_clear_def TOptimizeExtraOutputInfo_clear_def)
qed

subsection \<open>huber_kernel\<close>

text \<open>
  Claim C3. For every real \<open>delta\<close> and every positive \<open>k\<close>,
  \<open>huber_kernel delta k\<close> is exactly \<open>2 k\<^sup>2 (sqrt (1 + (delta / k)\<^sup>2) - 1)\<close>: the
  square root is at least 1, so the absolute value the code takes changes
  nothing.
\<close>

theorem huber_kernel_formula:
  "0 < k \<Longrightarrow> huber_kernel delta k = 2 * k\<^sup>2 * (sqrt (1 + (delta / k)\<^sup>2) - 1)"
proof -
  have "1 \<le> sqrt (1 + (delta / k)\<^sup>2)" by simp
  then have "0 \<le> 2 * k\<^sup>2 * (sqrt (1 + (delta / k)\<^sup>2) - 1)" by simp
  then show ?thesis by (simp add: huber_kernel_def square_def power2_eq_square)
qed

theorem huber_kernel_formula_witness:
  "(0::real) < 4 \<and> huber_kernel 3 4 = 8"
proof -
  have s: "sqrt (1 + (3 / 4)\<^sup>2) = 5 / (4::real)"
    by (rule real_sqrt_unique) (simp_all add: power2_eq_square)
  show ?thesis using huber_kernel_formula [of 4 3] s by simp
qed

subsection \<open>The visitor's methods keep its parameters\<close>

lemma params_visit [simp]:
  "params (visit_k2f v kf e d) = params v"
  "params (visit_k2k v kf k2 e2 d) = params v"
  "params (visit_kf v kf d) = params v"
  "params (visit_feat v lm d) = params v"
  by (simp_all add: visit_k2f_def visit_k2k_def visit_kf_def visit_feat_def Let_def)

lemma params_visit_k2f_seq [simp]: "params (visit_k2f_seq v es) = params v"
  by (induction v es rule: visit_k2f_seq.induct) simp_all

subsection \<open>Landmarks to optimize\<close>

lemma visit_k2f_seq_snoc:
  "visit_k2f_seq v (es @ [(kf, e, d)]) = visit_k2f (visit_k2f_seq v es) kf e d"
  by (induction v es rule: visit_k2f_seq.induct) simp_all

lemma times_counted_snoc:
  "times_counted lm (es @ [(kf, e, d)]) =
     times_counted lm es + (if \<not> feat_has_known_rel_pos e \<and> obs_feat_id e = lm then 1 else 0)"
  by (simp add: times_counted_def)

lemma times_counted_le: "times_counted lm es \<le> length es"
  by (simp add: times_counted_def)

lemma seen_count_visit_k2f:
  "seen_count (visit_k2f v kf e d) lm =
     seen_count v lm + (if \<not> feat_has_known_rel_pos e \<and> obs_feat_id e = lm then 1 else 0)"
  by (simp add: visit_k2f_def seen_count_def Let_def)

text \<open>The counter of a landmark is the number of counted visits, as a 64-bit word.\<close>

lemma seen_count_run:
  "seen_count (visit_k2f_seq (VisitorOptimizeLocalArea_ctor ps) es) lm = of_nat (times_counted lm es)"
proof (induction es rule: rev_induct)
  case Nil
  show ?case by (simp add: seen_count_def VisitorOptimizeLocalArea_ctor_def times_counted_def)
next
  case (snoc x es)
  obtain kf e d where x: "x = (kf, e, d)" by (cases x)
  show ?case unfolding x visit_k2f_seq_snoc seen_count_visit_k2f snoc.IH times_counted_snoc
    by simp
qed

lemma lm_IDs_visit_k2f:
  "lm_IDs_to_optimize (visit_k2f v kf e d) =
     lm_IDs_to_optimize v @
       (if \<not> feat_has_known_rel_pos e
           \<and> seen_count v (obs_feat_id e) + 1 = dont_optimize_landmarks_seen_less_than_n_times (params v)
        then [obs_feat_id e] else [])"
  by (simp add: visit_k2f_def seen_count_def Let_def)

lemma of_nat_eq_64: "m < 2 ^ 64 \<Longrightarrow> (of_nat m = (N :: 64 word)) = (m = unat N)"
proof
  assume m: "m < 2 ^ 64" and e: "of_nat m = N"
  have "unat (of_nat m :: 64 word) = m" using m by (simp add: unat_of_nat)
  then show "m = unat N" using e by simp
next
  assume "m = unat N"
  then show "of_nat m = N" by simp
qed

lemma lm_IDs_run_snoc:
  assumes "length (es @ [(kf, e, d)]) < 2 ^ 64"
  shows "lm_IDs_to_optimize (visit_k2f_seq (VisitorOptimizeLocalArea_ctor ps) (es @ [(kf, e, d)])) =
     lm_IDs_to_optimize (visit_k2f_seq (VisitorOptimizeLocalArea_ctor ps) es) @
       (if \<not> feat_has_known_rel_pos e
           \<and> times_counted (obs_feat_id e) (es @ [(kf, e, d)])
               = unat (dont_optimize_landmarks_seen_less_than_n_times ps)
        then [obs_feat_id e] else [])"
proof -
  let ?lm = "obs_feat_id e"
  have b: "Suc (times_counted ?lm es) < 2 ^ 64"
    using assms times_counted_le [of ?lm es] by simp
  have w: "(1 + word_of_nat (times_counted ?lm es) = dont_optimize_landmarks_seen_less_than_n_times ps)
        = (Suc (times_counted ?lm es) = unat (dont_optimize_landmarks_seen_less_than_n_times ps))"
    using of_nat_eq_64 [OF b, of "dont_optimize_landmarks_seen_less_than_n_times ps"] by simp
  have p: "params (VisitorOptimizeLocalArea_ctor ps) = ps"
    by (simp add: VisitorOptimizeLocalArea_ctor_def)
  show ?thesis
    unfolding visit_k2f_seq_snoc lm_IDs_visit_k2f seen_count_run times_counted_snoc
    using w by (simp add: p add.commute)
qed

lemma count_run:
  "length es < 2 ^ 64 \<Longrightarrow>
   count_list (lm_IDs_to_optimize (visit_k2f_seq (VisitorOptimizeLocalArea_ctor ps) es)) lm =
     (if 1 \<le> unat (dont_optimize_landmarks_seen_less_than_n_times ps)
         \<and> unat (dont_optimize_landmarks_seen_less_than_n_times ps) \<le> times_counted lm es
      then 1 else 0)"
proof (induction es rule: rev_induct)
  case Nil
  show ?case by (simp add: VisitorOptimizeLocalArea_ctor_def times_counted_def)
next
  case (snoc x es)
  obtain kf e d where x: "x = (kf, e, d)" by (cases x)
  have len: "length es < 2 ^ 64" using snoc.prems by simp
  have len': "length (es @ [(kf, e, d)]) < 2 ^ 64" using snoc.prems x by simp
  show ?case
    unfolding x lm_IDs_run_snoc [OF len'] count_list_append snoc.IH [OF len]
    by (auto simp: times_counted_snoc)
qed

text \<open>
  Claim C4, as stated, at a known-position landmark: with the threshold set to
  1, landmark 7 is met once on an edge whose \<open>feat_has_known_rel_pos\<close> is true.
  It has been encountered as often as the threshold asks, yet \<open>visit_k2f\<close>
  neither counts the visit nor appends the landmark.
\<close>

theorem known_landmark_never_appended:
  "times_encountered 7 run_known
     = unat (dont_optimize_landmarks_seen_less_than_n_times
         (TOptimizeLocalAreaParams_default\<lparr>dont_optimize_landmarks_seen_less_than_n_times := 1\<rparr>))
   \<and> lm_IDs_to_optimize
       (visit_k2f_seq
         (VisitorOptimizeLocalArea_ctor
           (TOptimizeLocalAreaParams_default\<lparr>dont_optimize_landmarks_seen_less_than_n_times := 1\<rparr>))
         run_known) = []
   \<and> lm_times_seen
       (visit_k2f_seq
         (VisitorOptimizeLocalArea_ctor
           (TOptimizeLocalAreaParams_default\<lparr>dont_optimize_landmarks_seen_less_than_n_times := 1\<rparr>))
         run_known) 7 = None"
  by (simp add: run_known_def times_encountered_def visit_k2f_def
      VisitorOptimizeLocalArea_ctor_def TOptimizeLocalAreaParams_default_def)

text \<open>
  Claim C4, amended. Take any run of fewer than \<open>2\<^sup>6\<^sup>4\<close> calls of \<open>visit_k2f\<close>
  on a fresh visitor, and count for each landmark only the calls on edges
  whose \<open>feat_has_known_rel_pos\<close> is false. Then every landmark is in
  \<open>lm_IDs_to_optimize\<close> exactly once if the threshold is at least 1 and the
  landmark's count has reached it, and not at all otherwise; and each single
  call appends its landmark exactly when the edge is such an edge and the
  count, this call included, equals the threshold, and appends nothing
  otherwise.
\<close>

theorem visit_k2f_appends_once_at_threshold:
  assumes "length es < 2 ^ 64"
  shows "count_list (lm_IDs_to_optimize (visit_k2f_seq (VisitorOptimizeLocalArea_ctor ps) es)) lm =
           (if 1 \<le> unat (dont_optimize_landmarks_seen_less_than_n_times ps)
               \<and> unat (dont_optimize_landmarks_seen_less_than_n_times ps) \<le> times_counted lm es
            then 1 else 0)
       \<and> (\<forall>i < length es.
            lm_IDs_to_optimize (visit_k2f_seq (VisitorOptimizeLocalArea_ctor ps) (take (Suc i) es)) =
            lm_IDs_to_optimize (visit_k2f_seq (VisitorOptimizeLocalArea_ctor ps) (take i es)) @
              (if \<not> feat_has_known_rel_pos (fst (snd (es ! i)))
                  \<and> times_counted (obs_feat_id (fst (snd (es ! i)))) (take (Suc i) es)
                      = unat (dont_optimize_landmarks_seen_less_than_n_times ps)
               then [obs_feat_id (fst (snd (es ! i)))] else []))"
proof (intro conjI allI impI)
  show "count_list (lm_IDs_to_optimize (visit_k2f_seq (VisitorOptimizeLocalArea_ctor ps) es)) lm =
           (if 1 \<le> unat (dont_optimize_landmarks_seen_less_than_n_times ps)
               \<and> unat (dont_optimize_landmarks_seen_less_than_n_times ps) \<le> times_counted lm es
            then 1 else 0)"
    using assms by (rule count_run)
next
  fix i assume i: "i < length es"
  obtain kf e d where x: "es ! i = (kf, e, d)" by (cases "es ! i")
  have t: "take (Suc i) es = take i es @ [(kf, e, d)]"
    using i x by (simp add: take_Suc_conv_app_nth)
  have len: "length (take i es @ [(kf, e, d)]) < 2 ^ 64"
    using i assms by simp
  show "lm_IDs_to_optimize (visit_k2f_seq (VisitorOptimizeLocalArea_ctor ps) (take (Suc i) es)) =
        lm_IDs_to_optimize (visit_k2f_seq (VisitorOptimizeLocalArea_ctor ps) (take i es)) @
          (if \<not> feat_has_known_rel_pos (fst (snd (es ! i)))
              \<and> times_counted (obs_feat_id (fst (snd (es ! i)))) (take (Suc i) es)
                  = unat (dont_optimize_landmarks_seen_less_than_n_times ps)
           then [obs_feat_id (fst (snd (es ! i)))] else [])"
    unfolding t x using lm_IDs_run_snoc [OF len, of ps] by simp
qed

theorem visit_k2f_appends_once_at_threshold_witness:
  "length run_unknown < 2 ^ 64
   \<and> count_list (lm_IDs_to_optimize
        (visit_k2f_seq (VisitorOptimizeLocalArea_ctor TOptimizeLocalAreaParams_default) run_unknown)) 7 = 1
   \<and> count_list (lm_IDs_to_optimize
        (visit_k2f_seq (VisitorOptimizeLocalArea_ctor TOptimizeLocalAreaParams_default) run_unknown)) 9 = 0
   \<and> lm_IDs_to_optimize
        (visit_k2f_seq (VisitorOptimizeLocalArea_ctor TOptimizeLocalAreaParams_default) (take 2 run_unknown))
     = lm_IDs_to_optimize
        (visit_k2f_seq (VisitorOptimizeLocalArea_ctor TOptimizeLocalAreaParams_default) (take 1 run_unknown))
       @ [7]"
proof -
  have len: "length run_unknown < 2 ^ 64" by (simp add: run_unknown_def)
  have n: "unat (dont_optimize_landmarks_seen_less_than_n_times TOptimizeLocalAreaParams_default) = 2"
    by (simp add: TOptimizeLocalAreaParams_default_def)
  have c7: "times_counted 7 run_unknown = 3" and c9: "times_counted 9 run_unknown = 1"
    and c2: "times_counted 7 (take 2 run_unknown) = 2"
    by (simp_all add: times_counted_def run_unknown_def)
  have i: "(1::nat) < length run_unknown" and e: "run_unknown ! 1 =
      (1, \<lparr>obs_kf_id = 1, obs_feat_id = 7, obs_arr = [], feat_has_known_rel_pos = False\<rparr>, 1)"
    by (simp_all add: run_unknown_def)
  note T = visit_k2f_appends_once_at_threshold [OF len, of TOptimizeLocalAreaParams_default]
  have "count_list (lm_IDs_to_optimize
        (visit_k2f_seq (VisitorOptimizeLocalArea_ctor TOptimizeLocalAreaParams_default) run_unknown)) 7 = 1"
    using T [of 7] by (simp add: n c7)
  moreover have "count_list (lm_IDs_to_optimize
        (visit_k2f_seq (VisitorOptimizeLocalArea_ctor TOptimizeLocalAreaParams_default) run_unknown)) 9 = 0"
    using T [of 9] by (simp add: n c9)
  moreover have "lm_IDs_to_optimize
        (visit_k2f_seq (VisitorOptimizeLocalArea_ctor TOptimizeLocalAreaParams_default) (take 2 run_unknown))
     = lm_IDs_to_optimize
        (visit_k2f_seq (VisitorOptimizeLocalArea_ctor TOptimizeLocalAreaParams_default) (take 1 run_unknown))
       @ [7]"
  proof -
    have e': "run_unknown ! Suc 0 =
        (1, \<lparr>obs_kf_id = 1, obs_feat_id = 7, obs_arr = [], feat_has_known_rel_pos = False\<rparr>, 1)"
      using e by simp
    have c2': "times_counted 7 (take (Suc (Suc 0)) run_unknown) = Suc (Suc 0)"
      using c2 by (simp add: numeral_2_eq_2)
    show ?thesis
      using T [of 7, THEN conjunct2, rule_format, OF i]
      by (simp add: e e' n c2' numeral_2_eq_2)
  qed
  ultimately show ?thesis using len by simp
qed

subsection \<open>Bounded spanning trees\<close>

lemma set_neighbours: "v \<in> set (neighbours es u) \<longleftrightarrow> adjacent es u v"
  by (auto simp: neighbours_def adjacent_def split: if_splits)


lemma hops_0_iff [simp]: "hops es r 0 v \<longleftrightarrow> v = r"
  by (auto elim: hops.cases intro: hops_0)

lemma hops_Suc_iff: "hops es r (Suc n) v \<longleftrightarrow> (\<exists>u. hops es r n u \<and> adjacent es u v)"
  by (auto elim: hops.cases intro: hops_Suc)

lemma shortest_unique: "shortest es r v d \<Longrightarrow> shortest es r v d' \<Longrightarrow> d = d'"
  by (auto simp: shortest_def intro: le_antisym)



lemma bfs_inv_init: "bfs_inv es r 0 ([r], [r \<mapsto> \<lparr>st_pred = r, st_dist = 0\<rparr>])"
  by (auto simp: bfs_inv_def shortest_def)

lemma bfs_inv_step:
  assumes "bfs_inv es r k FT"
  shows "bfs_inv es r (Suc k) (bfs_tree_step es k FT)"
proof -
  obtain F T where FT: "FT = (F, T)" by (cases FT)
  define found where "found = remdups (filter (\<lambda>v. T v = None) (concat (map (neighbours es) F)))"
  define T' where "T' = (\<lambda>v. if v \<in> set found
               then Some \<lparr>st_pred = Min (set (filter (\<lambda>u. v \<in> set (neighbours es u)) F)),
                           st_dist = Suc k\<rparr>
               else T v)"
  have step: "bfs_tree_step es k FT = (found, T')"
    by (simp add: bfs_tree_step_def FT found_def T'_def Let_def)
  from assms have
    i1: "\<And>v. (T v \<noteq> None) = (\<exists>n \<le> k. hops es r n v)" and
    i2: "\<And>v e. T v = Some e \<Longrightarrow> shortest es r v (st_dist e)" and
    i3: "\<And>v. (v \<in> set F) = (\<exists>e. T v = Some e \<and> st_dist e = k)" and
    i4: "\<And>v e. T v = Some e \<Longrightarrow> v \<noteq> r \<Longrightarrow>
        adjacent es (st_pred e) v \<and>
        (\<exists>e'. T (st_pred e) = Some e' \<and> Suc (st_dist e') = st_dist e)"
    by (auto simp: bfs_inv_def FT)
  have found_iff: "v \<in> set found \<longleftrightarrow> T v = None \<and> (\<exists>u \<in> set F. adjacent es u v)" for v
    by (auto simp: found_def set_neighbours)
  \<comment> \<open>a node at exact distance \<open>k\<close> is in the frontier\<close>
  have frontier: "u \<in> set F" if h: "hops es r k u" and nol: "\<forall>n<k. \<not> hops es r n u" for u
  proof -
    from h i1 [of u] obtain e where e: "T u = Some e" by auto
    from i2 [OF e] have "hops es r (st_dist e) u" "st_dist e \<le> k"
      using h by (auto simp: shortest_def)
    with nol have "st_dist e = k" by (cases "st_dist e < k") auto
    with e i3 show ?thesis by blast
  qed
  have found_hops: "hops es r (Suc k) v" if "v \<in> set found" for v
  proof -
    from that found_iff obtain u where u: "u \<in> set F" "adjacent es u v" by blast
    from u(1) i3 obtain e where "T u = Some e" "st_dist e = k" by blast
    with i2 [of u e] have "hops es r k u" by (auto simp: shortest_def)
    then show ?thesis using u(2) by (rule hops_Suc)
  qed
  have found_least: "Suc k \<le> n" if f: "v \<in> set found" and h: "hops es r n v" for v n
  proof (rule ccontr)
    assume "\<not> Suc k \<le> n"
    then have "n \<le> k" by simp
    with h i1 [of v] have "T v \<noteq> None" by blast
    with f show False by (simp add: found_iff)
  qed
  have c1: "(T' v \<noteq> None) = (\<exists>n \<le> Suc k. hops es r n v)" for v
  proof
    assume a: "T' v \<noteq> None"
    show "\<exists>n \<le> Suc k. hops es r n v"
    proof (cases "v \<in> set found")
      case True
      then have "hops es r (Suc k) v" by (rule found_hops)
      then show ?thesis by blast
    next
      case False
      with a have "T v \<noteq> None" by (simp add: T'_def)
      with i1 [of v] obtain n where "n \<le> k" "hops es r n v" by blast
      then have "n \<le> Suc k \<and> hops es r n v" by simp
      then show ?thesis by blast
    qed
  next
    assume "\<exists>n \<le> Suc k. hops es r n v"
    then obtain n where n: "n \<le> Suc k" "hops es r n v" by blast
    show "T' v \<noteq> None"
    proof (cases "T v = None")
      case False
      then show ?thesis by (simp add: T'_def)
    next
      case True
      with i1 [of v] have no: "\<forall>m \<le> k. \<not> hops es r m v" by blast
      with n have "n = Suc k" by (cases "n \<le> k") auto
      with n obtain u where u: "hops es r k u" "adjacent es u v"
        by (auto simp: hops_Suc_iff)
      have "\<forall>m<k. \<not> hops es r m u"
      proof (intro allI impI notI)
        fix m assume "m < k" "hops es r m u"
        then have "hops es r (Suc m) v" "Suc m \<le> k" using u(2) by (auto intro: hops_Suc)
        with no show False by blast
      qed
      with u(1) have "u \<in> set F" by (rule frontier)
      with u(2) True have "v \<in> set found" using found_iff by blast
      then show ?thesis by (simp add: T'_def)
    qed
  qed
  have c2: "shortest es r v (st_dist e)" if "T' v = Some e" for v e
  proof (cases "v \<in> set found")
    case True
    with that have "st_dist e = Suc k" by (auto simp: T'_def)
    with True found_hops found_least show ?thesis by (auto simp: shortest_def)
  next
    case False
    with that have "T v = Some e" by (simp add: T'_def)
    then show ?thesis by (rule i2)
  qed
  have c3: "(v \<in> set found) = (\<exists>e. T' v = Some e \<and> st_dist e = Suc k)" for v
  proof
    assume "v \<in> set found"
    then show "\<exists>e. T' v = Some e \<and> st_dist e = Suc k" by (simp add: T'_def)
  next
    assume "\<exists>e. T' v = Some e \<and> st_dist e = Suc k"
    then obtain e where e: "T' v = Some e" "st_dist e = Suc k" by blast
    show "v \<in> set found"
    proof (rule ccontr)
      assume nf: "v \<notin> set found"
      with e have Te: "T v = Some e" by (simp add: T'_def)
      from i2 [OF Te] e(2) have "shortest es r v (Suc k)" by simp
      moreover from Te i1 [of v] obtain n where "n \<le> k" "hops es r n v" by auto
      ultimately show False by (auto simp: shortest_def)
    qed
  qed
  have c4: "adjacent es (st_pred e) v \<and> (\<exists>e'. T' (st_pred e) = Some e' \<and> Suc (st_dist e') = st_dist e)"
    if e: "T' v = Some e" and vr: "v \<noteq> r" for v e
  proof (cases "v \<in> set found")
    case True
    let ?C = "set (filter (\<lambda>u. v \<in> set (neighbours es u)) F)"
    from True found_iff have "?C \<noteq> {}" by (auto simp: set_neighbours)
    then have "Min ?C \<in> ?C" by (intro Min_in) auto
    moreover from True e have pe: "st_pred e = Min ?C" "st_dist e = Suc k" by (auto simp: T'_def)
    ultimately have p: "st_pred e \<in> set F" "adjacent es (st_pred e) v"
      by (auto simp: set_neighbours)
    from p(1) i3 obtain e' where e': "T (st_pred e) = Some e'" "st_dist e' = k" by blast
    then have "st_pred e \<notin> set found" using found_iff by auto
    with e' have "T' (st_pred e) = Some e'" by (simp add: T'_def)
    with p(2) e'(2) pe(2) show ?thesis by simp
  next
    case False
    with e have Te: "T v = Some e" by (simp add: T'_def)
    from i4 [OF Te vr] obtain e' where
      a: "adjacent es (st_pred e) v" and e': "T (st_pred e) = Some e'" "Suc (st_dist e') = st_dist e"
      by blast
    from e'(1) have "st_pred e \<notin> set found" using found_iff by auto
    with e' have "T' (st_pred e) = Some e'" by (simp add: T'_def)
    with a e'(2) show ?thesis by simp
  qed
  show ?thesis
    unfolding step bfs_inv_def fst_conv snd_conv
    using c1 c2 c3 c4 by blast
qed

lemma bfs_inv_levels:
  "bfs_inv es r k FT \<Longrightarrow> \<exists>F. bfs_inv es r (k + n) (F, bfs_tree_levels n es k FT)"
proof (induction n arbitrary: k FT)
  case 0
  then show ?case by (cases FT) auto
next
  case (Suc n)
  from Suc.IH [OF bfs_inv_step [OF Suc.prems]] show ?case by simp
qed

lemma bfs_tree_inv: "\<exists>F. bfs_inv es r D (F, bfs_tree es D r)"
  using bfs_inv_levels [OF bfs_inv_init, of es r D] by (simp add: bfs_tree_def)



lemma bfs_tree_sound: "tree_sound es r (bfs_tree es D r)"
  using bfs_tree_inv [of es r D] by (auto simp: bfs_inv_def tree_sound_def shortest_def)




lemma adjacent_append: "adjacent (es0 @ new) u v \<longleftrightarrow> adjacent es0 u v \<or> adjacent new u v"
  by (auto simp: adjacent_def)

lemma hops_append: "hops es0 r n v \<Longrightarrow> hops (es0 @ new) r n v"
  by (induction rule: hops.induct) (auto intro: hops.intros simp: adjacent_append)







text \<open>Soundness is kept by the update.\<close>

lemma tree_sound_append: "tree_sound es0 r T \<Longrightarrow> tree_sound (es0 @ new) r T"
  by (auto simp: tree_sound_def intro: hops_append)

lemma tree_sound_grow: "tree_sound es r T \<Longrightarrow> tree_sound es r R \<Longrightarrow> tree_sound es r (grow_tree T R)"
  by (auto simp: tree_sound_def grow_tree_def split: option.splits)

lemma update_symbolic_new_node_sound:
  assumes "r \<noteq> new_kf \<longrightarrow> tree_sound old_edges r (trees r)"
  shows "tree_sound (old_edges @ new_edges) r
           (update_symbolic_new_node (old_edges @ new_edges) D trees new_kf r)"
  using assms
  by (auto simp: update_symbolic_new_node_def Let_def bfs_tree_sound tree_sound_grow
      tree_sound_append)




subsection \<open>The steps of the search\<close>

lemma foldl_preserves:
  "(\<And>b e. e \<in> set es \<Longrightarrow> P b \<Longrightarrow> P (f b e)) \<Longrightarrow> P b \<Longrightarrow> P (foldl f b es)"
proof (induction es arbitrary: b)
  case Nil
  then show ?case by simp
next
  case (Cons e es)
  have "P (f b e)" using Cons.prems by simp
  moreover have "\<And>b e'. e' \<in> set es \<Longrightarrow> P b \<Longrightarrow> P (f b e')" using Cons.prems(1) by simp
  ultimately show ?case using Cons.IH by simp
qed

lemma foldl_keeps:
  "(\<And>b e. g (f b e) = g b) \<Longrightarrow> g (foldl f b es) = g b"
  by (induction es arbitrary: b) simp_all

lemma bfs_k2f_fields [simp]:
  "kfs_visited (bfs_k2f k d b e) = kfs_visited b"
  "next_level (bfs_k2f k d b e) = next_level b"
  "feats_visited (bfs_k2f k d b e) = feats_visited b"
  "params (visitor (bfs_k2f k d b e)) = params (visitor b)"
  by (simp_all add: bfs_k2f_def Let_def visit_filter_feat_def)

lemma hand_k2k_fields [simp]:
  "kfs_visited (hand_k2k k d b e) = kfs_visited b"
  "next_level (hand_k2k k d b e) = next_level b"
  "feats_visited (hand_k2k k d b e) = feats_visited b"
  "params (visitor (hand_k2k k d b e)) = params (visitor b)"
  by (simp_all add: hand_k2k_def)

lemma visit_node_fields [simp]:
  "kfs_visited (visit_node st d b k) = kfs_visited b @ [k]"
  "next_level (visit_node st d b k) = next_level b"
  "feats_visited (visit_node st d b k) = feats_visited b"
  "params (visitor (visit_node st d b k)) = params (visitor b)"
  unfolding visit_node_def
  by (simp_all add: foldl_keeps [where g = kfs_visited] foldl_keeps [where g = next_level]
      foldl_keeps [where g = feats_visited] foldl_keeps [where g = "\<lambda>b. params (visitor b)"])

lemma bfs_k2k_fields [simp]:
  "kfs_visited (bfs_k2k k d b e) = kfs_visited b"
  "feats_visited (bfs_k2k k d b e) = feats_visited b"
  "params (visitor (bfs_k2k k d b e)) = params (visitor b)"
  by (simp_all add: bfs_k2k_def Let_def)

lemma next_level_bfs_k2k:
  "k' \<in> set (next_level (bfs_k2k k d b e)) \<Longrightarrow>
   k' \<in> set (next_level b) \<or>
   (k' = other_end e k \<and> k' \<le> max_visitable_kf_id (params (visitor b)))"
  by (auto simp: bfs_k2k_def Let_def visit_filter_kf_def split: if_splits)

lemma prebuilt_expand_fields [simp]:
  "kfs_visited (prebuilt_expand st m d b k) = kfs_visited b @ [k]"
  "next_level (prebuilt_expand st m d b k) = next_level b"
  "feats_visited (prebuilt_expand st m d b k) = feats_visited b"
  "params (visitor (prebuilt_expand st m d b k)) = params (visitor b)"
  unfolding prebuilt_expand_def Let_def
  by (simp_all add: foldl_keeps [where g = kfs_visited] foldl_keeps [where g = next_level]
      foldl_keeps [where g = feats_visited] foldl_keeps [where g = "\<lambda>b. params (visitor b)"])

lemma bfs_expand_fields [simp]:
  "kfs_visited (bfs_expand st m d b k) = kfs_visited b @ [k]"
  "feats_visited (bfs_expand st m d b k) = feats_visited b"
  "params (visitor (bfs_expand st m d b k)) = params (visitor b)"
  unfolding bfs_expand_def Let_def
  by (simp_all add: foldl_keeps [where g = kfs_visited]
      foldl_keeps [where g = feats_visited] foldl_keeps [where g = "\<lambda>b. params (visitor b)"])

lemma other_end_adjacent:
  "e \<in> set es \<Longrightarrow> edge_from e = k \<or> edge_to e = k \<Longrightarrow> adjacent es k (other_end e k)"
  by (auto simp: adjacent_def other_end_def)

text \<open>The keyframes that expanding \<open>k\<close> queues are at the other end of a
  kf-to-kf edge of \<open>k\<close>, and pass the keyframe filter.\<close>

lemma next_level_bfs_expand:
  assumes "k' \<in> set (next_level (bfs_expand st m d b k))"
  shows "k' \<in> set (next_level b) \<or>
         (adjacent (k2k_edges st) k k' \<and> k' \<le> max_visitable_kf_id (params (visitor b)))"
proof -
  let ?es = "filter (\<lambda>e. edge_from e = k \<or> edge_to e = k) (k2k_edges st)"
  let ?P = "\<lambda>b' :: bfs_run. params (visitor b') = params (visitor b) \<and>
     (\<forall>k' \<in> set (next_level b'). k' \<in> set (next_level b) \<or>
        (adjacent (k2k_edges st) k k' \<and> k' \<le> max_visitable_kf_id (params (visitor b))))"
  have "?P (foldl (bfs_k2k k d) (visit_node st d b k) ?es)"
  proof (rule foldl_preserves [where P = ?P])
    show "?P (visit_node st d b k)" by simp
  next
    fix b' :: bfs_run and e
    assume e: "e \<in> set ?es" and P: "?P b'"
    show "?P (bfs_k2k k d b' e)"
    proof (intro conjI ballI)
      show "params (visitor (bfs_k2k k d b' e)) = params (visitor b)" using P by simp
    next
      fix k' assume "k' \<in> set (next_level (bfs_k2k k d b' e))"
      from next_level_bfs_k2k [OF this] P e other_end_adjacent [of e "k2k_edges st" k]
      show "k' \<in> set (next_level b) \<or>
        (adjacent (k2k_edges st) k k' \<and> k' \<le> max_visitable_kf_id (params (visitor b)))"
        by auto
    qed
  qed
  with assms show ?thesis
    by (auto simp: bfs_expand_def Let_def split: if_splits)
qed

subsection \<open>The search never visits a landmark node and walks kf-to-kf edges only\<close>

lemma feats_visited_bfs_levels:
  "feats_visited (bfs_levels n st m d level b) = feats_visited b"
  by (induction n arbitrary: d level b)
     (simp_all add: Let_def foldl_keeps [where g = feats_visited])

lemma feats_visited_prebuilt_visit:
  "feats_visited (prebuilt_visit st T r m b k) = feats_visited b"
  by (simp add: prebuilt_visit_def split: option.splits)

lemma feats_visited_bfs_visitor:
  "feats_visited (bfs_visitor st sym_trees root_id max_distance rely v) = []"
  by (simp add: bfs_visitor_def Let_def feats_visited_bfs_levels
      foldl_keeps [where g = feats_visited] feats_visited_prebuilt_visit)

lemma walk_inv_bfs_expand:
  assumes inv: "walk_inv (k2k_edges st) r j b" and k: "\<exists>n \<le> j. hops (k2k_edges st) r n k"
  shows "walk_inv (k2k_edges st) r j (bfs_expand st m d b k)"
  unfolding walk_inv_def
proof (intro conjI ballI)
  fix k' assume "k' \<in> set (kfs_visited (bfs_expand st m d b k))"
  then have "k' \<in> set (kfs_visited b) \<or> k' = k" by auto
  with inv k show "\<exists>n \<le> j. hops (k2k_edges st) r n k'" by (auto simp: walk_inv_def)
next
  fix k' assume "k' \<in> set (next_level (bfs_expand st m d b k))"
  from next_level_bfs_expand [OF this]
  show "\<exists>n \<le> Suc j. hops (k2k_edges st) r n k'"
  proof
    assume "k' \<in> set (next_level b)"
    with inv show ?thesis by (simp add: walk_inv_def)
  next
    assume a: "adjacent (k2k_edges st) k k' \<and> k' \<le> max_visitable_kf_id (params (visitor b))"
    from k obtain n where n: "n \<le> j" "hops (k2k_edges st) r n k" by blast
    from n(2) a have "hops (k2k_edges st) r (Suc n) k'" by (auto intro: hops_Suc)
    with n(1) have "Suc n \<le> Suc j \<and> hops (k2k_edges st) r (Suc n) k'" by simp
    then show ?thesis by blast
  qed
qed

lemma walk_inv_level:
  "walk_inv (k2k_edges st) r j b \<Longrightarrow> \<forall>k \<in> set level. \<exists>n \<le> j. hops (k2k_edges st) r n k \<Longrightarrow>
   walk_inv (k2k_edges st) r j (foldl (bfs_expand st m d) b level)"
  by (induction level arbitrary: b) (simp_all add: walk_inv_bfs_expand)

lemma walk_inv_next:
  assumes "walk_inv es r j b"
  shows "walk_inv es r (Suc j) (b\<lparr>next_level := []\<rparr>)"
  unfolding walk_inv_def
proof (intro conjI ballI)
  fix k assume "k \<in> set (kfs_visited (b\<lparr>next_level := []\<rparr>))"
  with assms obtain n where "n \<le> j" "hops es r n k" by (auto simp: walk_inv_def)
  then have "n \<le> Suc j \<and> hops es r n k" by simp
  then show "\<exists>n \<le> Suc j. hops es r n k" by blast
next
  fix k assume "k \<in> set (next_level (b\<lparr>next_level := []\<rparr>))"
  then show "\<exists>n \<le> Suc (Suc j). hops es r n k" by simp
qed

lemma walk_inv_bfs_levels:
  "walk_inv (k2k_edges st) r j (b\<lparr>next_level := []\<rparr>) \<Longrightarrow>
   \<forall>k \<in> set level. \<exists>n \<le> j. hops (k2k_edges st) r n k \<Longrightarrow>
   \<forall>k \<in> set (kfs_visited (bfs_levels i st m d level b)).
      \<exists>n \<le> j + i. hops (k2k_edges st) r n k"
proof (induction i arbitrary: j d level b)
  case 0
  from walk_inv_level [OF 0(1) 0(2)] show ?case by (simp add: walk_inv_def)
next
  case (Suc i)
  let ?b' = "foldl (bfs_expand st m d) (b\<lparr>next_level := []\<rparr>) level"
  from walk_inv_level [OF Suc.prems(1) Suc.prems(2)]
  have w: "walk_inv (k2k_edges st) r j ?b'" .
  then have l: "\<forall>k \<in> set (next_level ?b'). \<exists>n \<le> Suc j. hops (k2k_edges st) r n k"
    by (simp add: walk_inv_def)
  from Suc.IH [OF walk_inv_next [OF w] l] show ?case by (simp add: Let_def)
qed

lemma walk_inv_prebuilt_expand:
  assumes inv: "walk_inv es r j b" and k: "\<exists>n \<le> j. hops es r n k"
  shows "walk_inv es r j (prebuilt_expand st m d b k)"
  using assms by (auto simp: walk_inv_def)

lemma walk_inv_prebuilt_visit:
  assumes inv: "walk_inv es r (unat m) b" and sound: "tree_sound es r T"
  shows "walk_inv es r (unat m) (prebuilt_visit st T r m b k)"
proof (cases "T k")
  case None
  with inv show ?thesis by (simp add: prebuilt_visit_def)
next
  case (Some e)
  with sound have h: "hops es r (st_dist e) k" by (simp add: tree_sound_def)
  show ?thesis
  proof (cases "k \<noteq> r \<and> st_dist e \<le> unat m \<and> visit_filter_kf (visitor b) k (of_nat (st_dist e))")
    case True
    with h have "\<exists>n \<le> unat m. hops es r n k" by blast
    from walk_inv_prebuilt_expand [OF inv this] Some True show ?thesis
      by (simp add: prebuilt_visit_def)
  next
    case False
    with inv Some show ?thesis by (auto simp: prebuilt_visit_def)
  qed
qed

text \<open>
  Claim C8. \<open>visit_filter_feat\<close> rejects every landmark at every distance. So
  for every problem state, root and maximum distance, in either mode of the
  search, no landmark node is visited, and every node that is visited is a
  keyframe joined to the root by a walk of at most \<open>max_distance\<close> kf-to-kf
  edges: the search of \<open>optimize_local_area\<close> follows kf-to-kf edges only.
  (With the prebuilt trees the root's tree has to be sound, as the update of
  the trees keeps it.)
\<close>

theorem bfs_follows_k2k_edges_only:
  assumes "rely \<longrightarrow> tree_sound (k2k_edges st) root_id (sym_trees root_id)"
  shows "visit_filter_feat v lm_ID cur_dist = False
       \<and> feats_visited (bfs_visitor st sym_trees root_id max_distance rely v) = []
       \<and> (\<forall>k \<in> set (kfs_visited (bfs_visitor st sym_trees root_id max_distance rely v)).
            \<exists>n \<le> unat max_distance. hops (k2k_edges st) root_id n k)"
proof (intro conjI)
  show "visit_filter_feat v lm_ID cur_dist = False" by (simp add: visit_filter_feat_def)
  show "feats_visited (bfs_visitor st sym_trees root_id max_distance rely v) = []"
    by (rule feats_visited_bfs_visitor)
  let ?es = "k2k_edges st"
  let ?b0 = "\<lparr> visitor = v, kfs_visited = [], kfs_found = [root_id], next_level = [],
                k2k_done = [], feats_offered = [], feats_visited = [] \<rparr>"
  show "\<forall>k \<in> set (kfs_visited (bfs_visitor st sym_trees root_id max_distance rely v)).
            \<exists>n \<le> unat max_distance. hops ?es root_id n k"
  proof (cases rely)
    case False
    have "walk_inv ?es root_id 0 (?b0\<lparr>next_level := []\<rparr>)" by (simp add: walk_inv_def)
    moreover have "\<forall>k \<in> set [root_id]. \<exists>n \<le> 0. hops ?es root_id n k" by simp
    ultimately have "\<forall>k \<in> set (kfs_visited
        (bfs_levels (unat max_distance) st max_distance 0 [root_id] ?b0)).
          \<exists>n \<le> 0 + unat max_distance. hops ?es root_id n k"
      by (rule walk_inv_bfs_levels)
    with False show ?thesis by (simp add: bfs_visitor_def)
  next
    case True
    with assms have sound: "tree_sound ?es root_id (sym_trees root_id)" by simp
    let ?P = "walk_inv ?es root_id (unat max_distance)"
    have "?P ?b0" by (simp add: walk_inv_def)
    moreover have "\<exists>n \<le> unat max_distance. hops ?es root_id n root_id"
      by (intro exI [of _ 0]) simp
    ultimately have 0: "?P (prebuilt_expand st max_distance 0 ?b0 root_id)"
      by (rule walk_inv_prebuilt_expand)
    have "?P (foldl (prebuilt_visit st (sym_trees root_id) root_id max_distance)
                (prebuilt_expand st max_distance 0 ?b0 root_id)
                (map of_nat [0 ..< num_keyframes st]))"
      by (rule foldl_preserves [where P = ?P]) (simp_all add: walk_inv_prebuilt_visit sound 0)
    with True show ?thesis by (simp add: bfs_visitor_def walk_inv_def)
  qed
qed

theorem bfs_follows_k2k_edges_only_witness:
  "kfs_visited (bfs_visitor shared_landmark (bfs_tree (k2k_edges shared_landmark) 3) 0 2 True
      (VisitorOptimizeLocalArea_ctor TOptimizeLocalAreaParams_default)) = [0, 1]
   \<and> kfs_visited (bfs_visitor shared_landmark (bfs_tree (k2k_edges shared_landmark) 3) 0 2 False
      (VisitorOptimizeLocalArea_ctor TOptimizeLocalAreaParams_default)) = [0, 1]
   \<and> feats_visited (bfs_visitor shared_landmark (bfs_tree (k2k_edges shared_landmark) 3) 0 2 True
      (VisitorOptimizeLocalArea_ctor TOptimizeLocalAreaParams_default)) = []
   \<and> (\<exists>n \<le> 2. hops (k2k_edges shared_landmark) 0 n 1)"
proof -
  let ?v = "VisitorOptimizeLocalArea_ctor TOptimizeLocalAreaParams_default"
  let ?T = "bfs_tree (k2k_edges shared_landmark) 3"
  have s: "True \<longrightarrow> tree_sound (k2k_edges shared_landmark) 0 (?T 0)"
    by (simp add: bfs_tree_sound)
  have t: "kfs_visited (bfs_visitor shared_landmark ?T 0 2 True ?v) = [0, 1]" by code_simp
  have f: "kfs_visited (bfs_visitor shared_landmark ?T 0 2 False ?v) = [0, 1]" by code_simp
  note T = bfs_follows_k2k_edges_only [where rely = True and st = shared_landmark
      and root_id = 0 and sym_trees = ?T and max_distance = 2 and v = ?v, OF s]
  from T have "feats_visited (bfs_visitor shared_landmark ?T 0 2 True ?v) = []" by simp
  moreover from T t have "\<exists>n \<le> unat (2 :: topo_dist_t). hops (k2k_edges shared_landmark) 0 n 1"
    by simp
  then have "\<exists>n \<le> 2. hops (k2k_edges shared_landmark) 0 n 1" by simp
  ultimately show ?thesis using t f by simp
qed

subsection \<open>The keyframes the search visits\<close>

lemma kf_inv_bfs_expand:
  assumes "kf_inv r mx b" "k = r \<or> k \<le> mx"
  shows "kf_inv r mx (bfs_expand st m d b k)"
  unfolding kf_inv_def
proof (intro conjI ballI)
  show "max_visitable_kf_id (params (visitor (bfs_expand st m d b k))) = mx"
    using assms by (simp add: kf_inv_def)
next
  fix k' assume "k' \<in> set (kfs_visited (bfs_expand st m d b k)) \<union> set (next_level (bfs_expand st m d b k))"
  then have "k' \<in> set (kfs_visited b) \<or> k' = k \<or> k' \<in> set (next_level (bfs_expand st m d b k))"
    by auto
  with next_level_bfs_expand [of k' st m d b k] assms show "k' = r \<or> k' \<le> mx"
    by (auto simp: kf_inv_def)
qed

lemma kf_inv_level:
  "kf_inv r mx b \<Longrightarrow> \<forall>k \<in> set level. k = r \<or> k \<le> mx \<Longrightarrow>
   kf_inv r mx (foldl (bfs_expand st m d) b level)"
  by (induction level arbitrary: b) (simp_all add: kf_inv_bfs_expand)

lemma kf_inv_reset: "kf_inv r mx b \<Longrightarrow> kf_inv r mx (b\<lparr>next_level := []\<rparr>)"
  by (simp add: kf_inv_def)

lemma kf_inv_bfs_levels:
  "kf_inv r mx b \<Longrightarrow> \<forall>k \<in> set level. k = r \<or> k \<le> mx \<Longrightarrow>
   kf_inv r mx (bfs_levels n st m d level b)"
proof (induction n arbitrary: d level b)
  case 0
  then show ?case by (simp add: kf_inv_level kf_inv_reset)
next
  case (Suc n)
  let ?b' = "foldl (bfs_expand st m d) (b\<lparr>next_level := []\<rparr>) level"
  have i: "kf_inv r mx ?b'" using Suc.prems by (simp add: kf_inv_level kf_inv_reset)
  then have "\<forall>k \<in> set (next_level ?b'). k = r \<or> k \<le> mx" by (simp add: kf_inv_def)
  with i show ?case by (simp add: Let_def Suc.IH)
qed

lemma kf_inv_prebuilt_expand:
  "kf_inv r mx b \<Longrightarrow> k = r \<or> k \<le> mx \<Longrightarrow> kf_inv r mx (prebuilt_expand st m d b k)"
  by (auto simp: kf_inv_def)

lemma kf_inv_prebuilt_visit:
  "kf_inv r mx b \<Longrightarrow> kf_inv r mx (prebuilt_visit st T r m b k)"
  by (auto simp: prebuilt_visit_def visit_filter_kf_def kf_inv_def
      intro!: kf_inv_prebuilt_expand [unfolded kf_inv_def] split: option.splits)

text \<open>What the code does guarantee: a visited keyframe other than the root has
  an ID no greater than \<open>max_visitable_kf_id\<close>.\<close>

lemma bfs_visited_le_max_visitable:
  assumes "k \<in> set (kfs_visited (bfs_visitor st sym_trees root_id max_distance rely v))"
  shows "k = root_id \<or> k \<le> max_visitable_kf_id (params v)"
proof -
  let ?mx = "max_visitable_kf_id (params v)"
  let ?b0 = "\<lparr> visitor = v, kfs_visited = [], kfs_found = [root_id], next_level = [],
                k2k_done = [], feats_offered = [], feats_visited = [] \<rparr>"
  have b0: "kf_inv root_id ?mx ?b0" by (simp add: kf_inv_def)
  have "kf_inv root_id ?mx (bfs_visitor st sym_trees root_id max_distance rely v)"
  proof (cases rely)
    case False
    have "kf_inv root_id ?mx (bfs_levels (unat max_distance) st max_distance 0 [root_id] ?b0)"
      using b0 by (rule kf_inv_bfs_levels) simp
    with False show ?thesis by (simp add: bfs_visitor_def)
  next
    case True
    have "kf_inv root_id ?mx (prebuilt_expand st max_distance 0 ?b0 root_id)"
      using b0 by (rule kf_inv_prebuilt_expand) simp
    then have "kf_inv root_id ?mx
        (foldl (prebuilt_visit st (sym_trees root_id) root_id max_distance)
           (prebuilt_expand st max_distance 0 ?b0 root_id)
           (map of_nat [0 ..< num_keyframes st]))"
      by (intro foldl_preserves [where P = "kf_inv root_id ?mx"]) (simp_all add: kf_inv_prebuilt_visit)
    with True show ?thesis by (simp add: bfs_visitor_def)
  qed
  with assms show ?thesis by (auto simp: kf_inv_def)
qed

text \<open>
  Claim C5 at a failing input. With \<open>max_visitable_kf_id = 1\<close>, the filter
  \<open>visit_filter_kf\<close> accepts keyframe 1, whose ID is not below the bound, and the
  search from keyframe 0 over the chain 0 - 1 - 2 visits keyframe 1 (and stops
  only before keyframe 2), in either mode.
\<close>

theorem bfs_visits_kf_equal_to_max_visitable:
  "max_visitable_kf_id (TOptimizeLocalAreaParams_default\<lparr>max_visitable_kf_id := 1\<rparr>) \<le> 1
   \<and> visit_filter_kf
       (VisitorOptimizeLocalArea_ctor (TOptimizeLocalAreaParams_default\<lparr>max_visitable_kf_id := 1\<rparr>)) 1 1
   \<and> kfs_visited
       (bfs_visitor chain3 (bfs_tree (k2k_edges chain3) 3) 0 2 False
         (VisitorOptimizeLocalArea_ctor (TOptimizeLocalAreaParams_default\<lparr>max_visitable_kf_id := 1\<rparr>)))
     = [0, 1]
   \<and> kfs_visited
       (bfs_visitor chain3 (bfs_tree (k2k_edges chain3) 3) 0 2 True
         (VisitorOptimizeLocalArea_ctor (TOptimizeLocalAreaParams_default\<lparr>max_visitable_kf_id := 1\<rparr>)))
     = [0, 1]"
  by code_simp

subsection \<open>add_observation\<close>

lemma known_lms_append [simp]:
  "known_lms (append_observation st a k) = known_lms st"
  "unknown_lms (append_observation st a k) = unknown_lms st"
  "k2k_edges (append_observation st a k) = k2k_edges st"
  "num_keyframes (append_observation st a k) = num_keyframes st"
  by (simp_all add: append_observation_def)

lemma registered_call:
  "lm_registered st lm \<Longrightarrow> lm_registered (fst (add_observation_call st a)) lm"
  by (auto simp: lm_registered_def add_observation_call_def add_observation_def Let_def
      split: option.splits sum.splits if_splits)

lemma registered_calls:
  "lm_registered st lm \<Longrightarrow> lm_registered (add_observation_calls st as) lm"
  by (induction st as rule: add_observation_calls.induct) (simp_all add: registered_call)

lemma registered_after_fixed:
  "fixed_relative_position a \<noteq> None \<Longrightarrow>
   lm_registered (fst (add_observation_call st a)) (feat_id (new_obs a))"
  by (auto simp: lm_registered_def add_observation_call_def add_observation_def Let_def
      split: option.splits sum.splits if_splits)

lemma duplicate_when_registered:
  "fixed_relative_position a \<noteq> None \<Longrightarrow> lm_registered st (feat_id (new_obs a)) \<Longrightarrow>
   add_observation_call st a = (st, Inl DuplicateKnownLandmark)"
  by (auto simp: lm_registered_def add_observation_call_def add_observation_def Let_def
      split: option.splits)

text \<open>
  Claim C6. In a series of calls of \<open>add_observation\<close>, a call with a non-null
  \<open>fixed_relative_position\<close> for a landmark that an earlier call already
  asserted as known-position fails with \<open>DuplicateKnownLandmark\<close> (whatever
  calls lie in between, and also in a state that has the landmark as known); the
  first observation of a landmark with both pointers null fails with
  \<open>MissingInitialGuess\<close>; and after any failed call the state is the state
  before the call.
\<close>

theorem add_observation_errors_leave_state:
  "(fixed_relative_position a1 \<noteq> None \<and> fixed_relative_position a2 \<noteq> None
      \<and> feat_id (new_obs a1) = feat_id (new_obs a2) \<longrightarrow>
      add_observation_call (add_observation_calls st (a1 # mid)) a2
        = (add_observation_calls st (a1 # mid), Inl DuplicateKnownLandmark))
   \<and> (fixed_relative_position a \<noteq> None \<and> known_lms st (feat_id (new_obs a)) \<noteq> None \<longrightarrow>
      add_observation_call st a = (st, Inl DuplicateKnownLandmark))
   \<and> (fixed_relative_position a = None \<and> unknown_relative_position_init_val a = None
      \<and> known_lms st (feat_id (new_obs a)) = None \<and> unknown_lms st (feat_id (new_obs a)) = None \<longrightarrow>
      add_observation_call st a = (st, Inl MissingInitialGuess))
   \<and> (\<forall>e. add_observation st a = Inl e \<longrightarrow> add_observation_call st a = (st, Inl e))"
proof (intro conjI impI allI)
  assume h: "fixed_relative_position a1 \<noteq> None \<and> fixed_relative_position a2 \<noteq> None
      \<and> feat_id (new_obs a1) = feat_id (new_obs a2)"
  then have "lm_registered (fst (add_observation_call st a1)) (feat_id (new_obs a2))"
    using registered_after_fixed [of a1 st] by simp
  then have "lm_registered (add_observation_calls st (a1 # mid)) (feat_id (new_obs a2))"
    by (simp add: registered_calls)
  with h show "add_observation_call (add_observation_calls st (a1 # mid)) a2
        = (add_observation_calls st (a1 # mid), Inl DuplicateKnownLandmark)"
    by (simp add: duplicate_when_registered)
next
  assume "fixed_relative_position a \<noteq> None \<and> known_lms st (feat_id (new_obs a)) \<noteq> None"
  then show "add_observation_call st a = (st, Inl DuplicateKnownLandmark)"
    by (simp add: duplicate_when_registered lm_registered_def)
next
  assume "fixed_relative_position a = None \<and> unknown_relative_position_init_val a = None
      \<and> known_lms st (feat_id (new_obs a)) = None \<and> unknown_lms st (feat_id (new_obs a)) = None"
  then show "add_observation_call st a = (st, Inl MissingInitialGuess)"
    by (simp add: add_observation_call_def add_observation_def Let_def)
next
  fix e assume "add_observation st a = Inl e"
  then show "add_observation_call st a = (st, Inl e)"
    by (simp add: add_observation_call_def)
qed

theorem add_observation_errors_leave_state_witness:
  "add_observation_call (add_observation_calls one_keyframe [assert_known_5_at 0]) (assert_known_5_at 1)
     = (add_observation_calls one_keyframe [assert_known_5_at 0], Inl DuplicateKnownLandmark)
   \<and> known_lms (add_observation_calls one_keyframe [assert_known_5_at 0]) 5
       = Some \<lparr>id_frame_base = 0, pos = [0, 0, 1]\<rparr>
   \<and> add_observation_call one_keyframe observe_6_no_guess = (one_keyframe, Inl MissingInitialGuess)"
proof -
  have 1: "fixed_relative_position (assert_known_5_at 0) \<noteq> None \<and> fixed_relative_position (assert_known_5_at 1) \<noteq> None
      \<and> feat_id (new_obs (assert_known_5_at 0)) = feat_id (new_obs (assert_known_5_at 1))"
    by (simp add: assert_known_5_at_def)
  have 2: "fixed_relative_position observe_6_no_guess = None \<and> unknown_relative_position_init_val observe_6_no_guess = None
      \<and> known_lms one_keyframe (feat_id (new_obs observe_6_no_guess)) = None \<and> unknown_lms one_keyframe (feat_id (new_obs observe_6_no_guess)) = None"
    by (simp add: observe_6_no_guess_def one_keyframe_def rba_clear_def)
  have 3: "known_lms (add_observation_calls one_keyframe [assert_known_5_at 0]) 5
       = Some \<lparr>id_frame_base = 0, pos = [0, 0, 1]\<rparr>"
    by (simp add: assert_known_5_at_def one_keyframe_def rba_clear_def add_observation_call_def
        add_observation_def)
  show ?thesis
    using add_observation_errors_leave_state [of "assert_known_5_at 0" "assert_known_5_at 1" one_keyframe "[]" observe_6_no_guess] 1 2 3
    by blast
qed



subsection \<open>define_new_keyframe\<close>









end
